theory Spec2Isabelle
  imports Main
begin

section \<open>The heap, the element type and raw storage\<close>

text \<open>
  The embedding follows \<^verbatim>\<open>advanced-vector/vector.h\<close>. A pointer \<^verbatim>\<open>T*\<close> into a block
  is the block's address (\<open>None\<close> for \<^verbatim>\<open>nullptr\<close>) and a slot index; a slot of a block is
  \<open>None\<close> while it is raw memory and \<open>Some x\<close> while it holds a live object of value \<open>x\<close>.
  Values of \<^verbatim>\<open>size_t\<close> are natural numbers; the two products that can leave the 64-bit
  range (\<^verbatim>\<open>size_ * 2\<close> and \<^verbatim>\<open>n * sizeof(T)\<close>) are reduced modulo \<open>2 ^ 64\<close>.
\<close>

type_synonym addr = nat

datatype error =
    AllocationError         \<comment> \<open>\<^verbatim>\<open>operator new\<close> throws\<close>
  | ElementOperationError   \<comment> \<open>a constructor or an assignment of \<^verbatim>\<open>T\<close> throws\<close>
  | AssertionFailure        \<comment> \<open>an \<^verbatim>\<open>assert\<close> of the source fails\<close>
  | UndefinedBehaviour      \<comment> \<open>a read of a slot that holds no live object\<close>

text \<open>The calls the program makes to the allocator and to the special members of \<^verbatim>\<open>T\<close>.\<close>

datatype event =
    New addr nat | Delete addr
  | ArgsCtor | ValueCtor | CopyCtor | MoveCtor | CopyAssign | MoveAssign | Dtor

text \<open>
  What the container asks of \<^verbatim>\<open>T\<close>: \<^verbatim>\<open>sizeof(T)\<close>, the two compile-time traits that
  \<^verbatim>\<open>if constexpr\<close> tests, which special members throw (as a predicate on the source value),
  the state a move leaves its source in, and the value of \<^verbatim>\<open>T()\<close> (\<open>None\<close> when it throws).
\<close>

record 'a elem_type =
  size_of :: nat
  is_nothrow_move_constructible :: bool
  is_copy_constructible :: bool
  value_ctor :: "'a option"
  copy_ctor_throws :: "'a \<Rightarrow> bool"
  move_ctor_throws :: "'a \<Rightarrow> bool"
  copy_assign_throws :: "'a \<Rightarrow> bool"
  move_assign_throws :: "'a \<Rightarrow> bool"
  moved_from :: "'a \<Rightarrow> 'a"

record 'a heap =
  blocks :: "addr \<Rightarrow> 'a option list option"
  next_addr :: addr
  new_fails :: "nat \<Rightarrow> bool"
  trace :: "event list"

definition emit :: "event list \<Rightarrow> 'a heap \<Rightarrow> 'a heap" where
  "emit evs h = h\<lparr>trace := trace h @ evs\<rparr>"

text \<open>Fields \<^verbatim>\<open>buffer_\<close> and \<^verbatim>\<open>capacity_\<close> of \<^verbatim>\<open>RawMemory<T>\<close>.\<close>

record RawMemory =
  buffer :: "addr option"
  capacity :: nat

definition size_t_mul :: "nat \<Rightarrow> nat \<Rightarrow> nat" where
  "size_t_mul a b = (a * b) mod 2 ^ 64"

text \<open>
  \<^verbatim>\<open>Allocate(n)\<close>: null for \<open>n = 0\<close>, otherwise \<^verbatim>\<open>operator new(n * sizeof(T))\<close>. The byte
  count is a product of \<^verbatim>\<open>size_t\<close> values and wraps, so the fresh block has room for as many
  whole slots as the wrapped byte count holds: \<open>n\<close> slots when \<open>n * sizeof(T)\<close> fits
  \<^verbatim>\<open>size_t\<close>, fewer when it does not. The predicate \<open>new_fails\<close> of the heap says for which
  requests \<^verbatim>\<open>operator new\<close> throws. \<^verbatim>\<open>Deallocate\<close> of null does nothing.
\<close>

definition Allocate :: "'a elem_type \<Rightarrow> nat \<Rightarrow> 'a heap \<Rightarrow> error + (addr option \<times> 'a heap)" where
  "Allocate T n h =
     (if n \<noteq> 0 then
        (if new_fails h n then Inl AllocationError
         else Inr (Some (next_addr h),
                   h\<lparr>blocks := (blocks h)
                        (next_addr h \<mapsto> replicate (size_t_mul n (size_of T) div size_of T) None),
                     next_addr := Suc (next_addr h),
                     trace := trace h @ [New (next_addr h) n]\<rparr>))
      else Inr (None, h))"

definition Deallocate :: "addr option \<Rightarrow> 'a heap \<Rightarrow> 'a heap" where
  "Deallocate buf h =
     (case buf of
        None \<Rightarrow> h
      | Some a \<Rightarrow> h\<lparr>blocks := (blocks h)(a := None), trace := trace h @ [Delete a]\<rparr>)"

definition RawMemory_default :: RawMemory where
  "RawMemory_default = \<lparr>buffer = None, capacity = 0\<rparr>"

definition RawMemory_sized ::
  "'a elem_type \<Rightarrow> nat \<Rightarrow> 'a heap \<Rightarrow> error + (RawMemory \<times> 'a heap)" where
  "RawMemory_sized T n h =
     (case Allocate T n h of
        Inl e \<Rightarrow> Inl e
      | Inr (p, h') \<Rightarrow> Inr (\<lparr>buffer = p, capacity = n\<rparr>, h'))"

text \<open>
  \<^verbatim>\<open>RawMemory(RawMemory&& other)\<close> and \<^verbatim>\<open>operator=(RawMemory&& rhs)\<close>: both assign the
  two fields from the source and write nothing to the source. The result is the pair of
  the target and the source after the call.
\<close>

definition RawMemory_move_ctor :: "RawMemory \<Rightarrow> RawMemory \<times> RawMemory" where
  "RawMemory_move_ctor other = (\<lparr>buffer = buffer other, capacity = capacity other\<rparr>, other)"

definition RawMemory_move_assign :: "RawMemory \<Rightarrow> RawMemory \<Rightarrow> RawMemory \<times> RawMemory" where
  "RawMemory_move_assign this rhs =
     (this\<lparr>buffer := buffer rhs, capacity := capacity rhs\<rparr>, rhs)"

definition RawMemory_dtor :: "RawMemory \<Rightarrow> 'a heap \<Rightarrow> 'a heap" where
  "RawMemory_dtor m h = Deallocate (buffer m) h"

text \<open>\<^verbatim>\<open>operator+\<close>: the address of slot \<open>offset\<close>, one past the end allowed.\<close>

definition RawMemory_plus :: "RawMemory \<Rightarrow> nat \<Rightarrow> error + (addr option \<times> nat)" where
  "RawMemory_plus m offset =
     (if offset \<le> capacity m then Inr (buffer m, offset) else Inl AssertionFailure)"

definition RawMemory_Swap :: "RawMemory \<Rightarrow> RawMemory \<Rightarrow> RawMemory \<times> RawMemory" where
  "RawMemory_Swap this other =
     (this\<lparr>buffer := buffer other, capacity := capacity other\<rparr>,
      other\<lparr>buffer := buffer this, capacity := capacity this\<rparr>)"

text \<open>The slots of the block a raw storage points to, and writing them back.\<close>

definition slots :: "'a heap \<Rightarrow> RawMemory \<Rightarrow> 'a option list" where
  "slots h m =
     (case buffer m of
        None \<Rightarrow> []
      | Some a \<Rightarrow> (case blocks h a of None \<Rightarrow> [] | Some s \<Rightarrow> s))"

definition set_slots :: "RawMemory \<Rightarrow> 'a option list \<Rightarrow> 'a heap \<Rightarrow> 'a heap" where
  "set_slots m s h =
     (case buffer m of
        None \<Rightarrow> h
      | Some a \<Rightarrow> (case blocks h a of None \<Rightarrow> h | Some _ \<Rightarrow> h\<lparr>blocks := (blocks h)(a \<mapsto> s)\<rparr>))"

definition slot_at :: "'a option list \<Rightarrow> nat \<Rightarrow> 'a option" where
  "slot_at s i = (if i < length s then s ! i else None)"

section \<open>The standard algorithms on slots\<close>

text \<open>
  Each algorithm of \<^verbatim>\<open><memory>\<close> and \<^verbatim>\<open><algorithm>\<close> the container calls, as a loop over
  slot lists. A result is the error thrown (if any), the slots after the call and the
  events of the call. Reading a slot that holds no object, or building one outside the
  block, is undefined behaviour in the source and an error here.
\<close>

fun destroy_n :: "'a option list \<Rightarrow> nat \<Rightarrow> nat \<Rightarrow> 'a option list" where
  "destroy_n s i 0 = s"
| "destroy_n s i (Suc n) = destroy_n (s[i := None]) (Suc i) n"

text \<open>
  \<^verbatim>\<open>std::uninitialized_copy_n(src + i, n, dst + j)\<close>: copy-constructs slot by slot; when a
  copy throws, the objects built so far are destroyed and the exception goes on.
\<close>

fun uninitialized_copy_n ::
  "'a elem_type \<Rightarrow> 'a option list \<Rightarrow> nat \<Rightarrow> nat \<Rightarrow> 'a option list \<Rightarrow> nat
     \<Rightarrow> error option \<times> 'a option list \<times> event list" where
  "uninitialized_copy_n T src i 0 dst j = (None, dst, [])"
| "uninitialized_copy_n T src i (Suc n) dst j =
     (case slot_at src i of
        None \<Rightarrow> (Some UndefinedBehaviour, dst, [])
      | Some x \<Rightarrow>
          if length dst \<le> j then (Some UndefinedBehaviour, dst, [])
          else if copy_ctor_throws T x then (Some ElementOperationError, dst, [CopyCtor])
          else (case uninitialized_copy_n T src (Suc i) n (dst[j := Some x]) (Suc j) of
                  (None, dst', evs) \<Rightarrow> (None, dst', CopyCtor # evs)
                | (Some e, dst', evs) \<Rightarrow> (Some e, dst'[j := None], CopyCtor # evs @ [Dtor])))"

text \<open>
  \<^verbatim>\<open>std::uninitialized_move_n(src + i, n, dst + j)\<close>: as above with move construction; a
  source that has been moved from stays live in its moved-from state. The result also
  holds the source slots after the call.
\<close>

fun uninitialized_move_n ::
  "'a elem_type \<Rightarrow> 'a option list \<Rightarrow> nat \<Rightarrow> nat \<Rightarrow> 'a option list \<Rightarrow> nat
     \<Rightarrow> error option \<times> 'a option list \<times> 'a option list \<times> event list" where
  "uninitialized_move_n T src i 0 dst j = (None, src, dst, [])"
| "uninitialized_move_n T src i (Suc n) dst j =
     (case slot_at src i of
        None \<Rightarrow> (Some UndefinedBehaviour, src, dst, [])
      | Some x \<Rightarrow>
          if length dst \<le> j then (Some UndefinedBehaviour, src, dst, [])
          else if move_ctor_throws T x then (Some ElementOperationError, src, dst, [MoveCtor])
          else (case uninitialized_move_n T (src[i := Some (moved_from T x)]) (Suc i) n
                       (dst[j := Some x]) (Suc j) of
                  (None, src', dst', evs) \<Rightarrow> (None, src', dst', MoveCtor # evs)
                | (Some e, src', dst', evs) \<Rightarrow>
                    (Some e, src', dst'[j := None], MoveCtor # evs @ [Dtor])))"

text \<open>\<^verbatim>\<open>std::uninitialized_value_construct_n(s + i, n)\<close>.\<close>

fun uninitialized_value_construct_n ::
  "'a elem_type \<Rightarrow> 'a option list \<Rightarrow> nat \<Rightarrow> nat \<Rightarrow> error option \<times> 'a option list \<times> event list" where
  "uninitialized_value_construct_n T s i 0 = (None, s, [])"
| "uninitialized_value_construct_n T s i (Suc n) =
     (if length s \<le> i then (Some UndefinedBehaviour, s, [])
      else
        (case value_ctor T of
           None \<Rightarrow> (Some ElementOperationError, s, [ValueCtor])
         | Some x \<Rightarrow>
             (case uninitialized_value_construct_n T (s[i := Some x]) (Suc i) n of
                (None, s', evs) \<Rightarrow> (None, s', ValueCtor # evs)
              | (Some e, s', evs) \<Rightarrow> (Some e, s'[i := None], ValueCtor # evs @ [Dtor]))))"

text \<open>
  \<^verbatim>\<open>std::copy(src + i, src + i + n, dst + j)\<close> between two blocks: copy-assigns slot by
  slot and stops at the first assignment that throws, leaving what it has written.
\<close>

fun std_copy ::
  "'a elem_type \<Rightarrow> 'a option list \<Rightarrow> nat \<Rightarrow> nat \<Rightarrow> 'a option list \<Rightarrow> nat
     \<Rightarrow> error option \<times> 'a option list \<times> event list" where
  "std_copy T src i 0 dst j = (None, dst, [])"
| "std_copy T src i (Suc n) dst j =
     (case slot_at src i of
        None \<Rightarrow> (Some UndefinedBehaviour, dst, [])
      | Some x \<Rightarrow>
          (case slot_at dst j of
             None \<Rightarrow> (Some UndefinedBehaviour, dst, [])
           | Some _ \<Rightarrow>
               if copy_assign_throws T x then (Some ElementOperationError, dst, [CopyAssign])
               else (case std_copy T src (Suc i) n (dst[j := Some x]) (Suc j) of
                       (e, dst', evs) \<Rightarrow> (e, dst', CopyAssign # evs))))"

text \<open>
  \<^verbatim>\<open>std::move(s + i, s + i + n, s + j)\<close> inside one block, front to back: slot \<open>j\<close> is
  move-assigned from slot \<open>i\<close>, which is left moved-from.
\<close>

fun std_move ::
  "'a elem_type \<Rightarrow> 'a option list \<Rightarrow> nat \<Rightarrow> nat \<Rightarrow> nat
     \<Rightarrow> error option \<times> 'a option list \<times> event list" where
  "std_move T s i 0 j = (None, s, [])"
| "std_move T s i (Suc n) j =
     (case slot_at s i of
        None \<Rightarrow> (Some UndefinedBehaviour, s, [])
      | Some x \<Rightarrow>
          (case slot_at s j of
             None \<Rightarrow> (Some UndefinedBehaviour, s, [])
           | Some _ \<Rightarrow>
               if move_assign_throws T x then (Some ElementOperationError, s, [MoveAssign])
               else (case std_move T (s[i := Some (moved_from T x), j := Some x]) (Suc i) n (Suc j) of
                       (e, s', evs) \<Rightarrow> (e, s', MoveAssign # evs))))"

text \<open>
  \<^verbatim>\<open>std::move_backward(s + first, s + first + n, s + d_last)\<close> inside one block, back to
  front: the \<open>k\<close>-th step move-assigns slot \<open>d_last - k\<close> from slot \<open>first + n - k\<close>.
\<close>

fun std_move_backward ::
  "'a elem_type \<Rightarrow> 'a option list \<Rightarrow> nat \<Rightarrow> nat \<Rightarrow> nat
     \<Rightarrow> error option \<times> 'a option list \<times> event list" where
  "std_move_backward T s first 0 d_last = (None, s, [])"
| "std_move_backward T s first (Suc n) d_last =
     (case slot_at s (first + n) of
        None \<Rightarrow> (Some UndefinedBehaviour, s, [])
      | Some x \<Rightarrow>
          (case slot_at s (d_last - 1) of
             None \<Rightarrow> (Some UndefinedBehaviour, s, [])
           | Some _ \<Rightarrow>
               if move_assign_throws T x then (Some ElementOperationError, s, [MoveAssign])
               else (case std_move_backward T
                            (s[first + n := Some (moved_from T x), d_last - 1 := Some x])
                            first n (d_last - 1) of
                       (e, s', evs) \<Rightarrow> (e, s', MoveAssign # evs))))"

section \<open>The dynamic array\<close>

text \<open>Fields \<^verbatim>\<open>data_\<close> and \<^verbatim>\<open>size_\<close> of \<^verbatim>\<open>Vector<T>\<close>.\<close>

record Vector =
  vdata :: RawMemory
  vsize :: nat

text \<open>
  The result of a call: it returns a value, or it throws; either way with the state it
  leaves behind.
\<close>

datatype ('r, 's) outcome = Returned 'r 's | Thrown error 's

text \<open>
  The constructor call \<^verbatim>\<open>T(std::forward<Args>(args)...)\<close> of the emplace functions: from
  arbitrary arguments (with the value it builds, \<open>None\<close> when it throws), or from a
  \<^verbatim>\<open>const T&\<close> or a \<^verbatim>\<open>T&&\<close> as \<^verbatim>\<open>PushBack\<close> and \<^verbatim>\<open>Insert\<close> pass them. The arguments are
  values outside the vector's own storage.
\<close>

datatype 'a ctor_call = Args "'a option" | CopyOf 'a | MoveOf 'a

definition construct :: "'a elem_type \<Rightarrow> 'a ctor_call \<Rightarrow> event \<times> 'a option" where
  "construct T c =
     (case c of
        Args r \<Rightarrow> (ArgsCtor, r)
      | CopyOf x \<Rightarrow> (CopyCtor, if copy_ctor_throws T x then None else Some x)
      | MoveOf x \<Rightarrow> (MoveCtor, if move_ctor_throws T x then None else Some x))"

definition Size :: "Vector \<Rightarrow> nat" where
  "Size v = vsize v"

definition Capacity :: "Vector \<Rightarrow> nat" where
  "Capacity v = capacity (vdata v)"

definition IsEmpty :: "Vector \<Rightarrow> bool" where
  "IsEmpty v = (0 = vsize v)"

definition Vector_default :: Vector where
  "Vector_default = \<lparr>vdata = RawMemory_default, vsize = 0\<rparr>"

definition Vector_sized :: "'a elem_type \<Rightarrow> nat \<Rightarrow> 'a heap \<Rightarrow> (Vector, 'a heap) outcome" where
  "Vector_sized T n h =
     (case RawMemory_sized T n h of
        Inl e \<Rightarrow> Thrown e h
      | Inr (m, h1) \<Rightarrow>
          (case uninitialized_value_construct_n T (slots h1 m) 0 n of
             (None, s, evs) \<Rightarrow> Returned \<lparr>vdata = m, vsize = n\<rparr> (emit evs (set_slots m s h1))
           | (Some e, s, evs) \<Rightarrow> Thrown e (RawMemory_dtor m (emit evs (set_slots m s h1)))))"

definition Vector_copy_ctor :: "'a elem_type \<Rightarrow> Vector \<Rightarrow> 'a heap \<Rightarrow> (Vector, 'a heap) outcome" where
  "Vector_copy_ctor T other h =
     (case RawMemory_sized T (vsize other) h of
        Inl e \<Rightarrow> Thrown e h
      | Inr (m, h1) \<Rightarrow>
          (case uninitialized_copy_n T (slots h1 (vdata other)) 0 (vsize other) (slots h1 m) 0 of
             (None, s, evs) \<Rightarrow>
               Returned \<lparr>vdata = m, vsize = vsize other\<rparr> (emit evs (set_slots m s h1))
           | (Some e, s, evs) \<Rightarrow> Thrown e (RawMemory_dtor m (emit evs (set_slots m s h1)))))"

definition Swap :: "Vector \<Rightarrow> Vector \<Rightarrow> Vector \<times> Vector" where
  "Swap this other =
     (case RawMemory_Swap (vdata this) (vdata other) of
        (d, d') \<Rightarrow> (this\<lparr>vdata := d, vsize := vsize other\<rparr>,
                    other\<lparr>vdata := d', vsize := vsize this\<rparr>))"

text \<open>
  \<^verbatim>\<open>Vector(Vector&& other)\<close>: the new object starts from its default member initialisers
  and swaps with the source. The result is the new vector and the source after the call.
\<close>

definition Vector_move_ctor :: "Vector \<Rightarrow> Vector \<times> Vector" where
  "Vector_move_ctor other = Swap Vector_default other"

definition Vector_dtor :: "Vector \<Rightarrow> 'a heap \<Rightarrow> 'a heap" where
  "Vector_dtor v h =
     RawMemory_dtor (vdata v)
       (emit (replicate (vsize v) Dtor)
          (set_slots (vdata v) (destroy_n (slots h (vdata v)) 0 (vsize v)) h))"

text \<open>
  \<^verbatim>\<open>operator[]\<close> reads the element; the assertions of \<^verbatim>\<open>Vector::operator[]\<close> and of
  \<^verbatim>\<open>RawMemory::operator[]\<close> come first.
\<close>

definition Vector_at :: "'a heap \<Rightarrow> Vector \<Rightarrow> nat \<Rightarrow> error + 'a" where
  "Vector_at h v index =
     (if \<not> index < vsize v then Inl AssertionFailure
      else if \<not> index < capacity (vdata v) then Inl AssertionFailure
      else (case slot_at (slots h (vdata v)) index of
              None \<Rightarrow> Inl UndefinedBehaviour
            | Some x \<Rightarrow> Inr x))"

text \<open>
  The test of \<^verbatim>\<open>if constexpr\<close> on every growth path.
\<close>

definition move_if_noexcept_or_no_copy :: "'a elem_type \<Rightarrow> bool" where
  "move_if_noexcept_or_no_copy T =
     (is_nothrow_move_constructible T \<or> \<not> is_copy_constructible T)"

text \<open>
  The last two statements of each growth path: \<^verbatim>\<open>std::destroy_n(begin(), size_)\<close>,
  \<^verbatim>\<open>data_.Swap(new_data)\<close>, and the destructor of \<^verbatim>\<open>new_data\<close> at the end of its scope,
  which by then holds the old block.
\<close>

definition destroy_and_swap :: "Vector \<Rightarrow> RawMemory \<Rightarrow> 'a heap \<Rightarrow> Vector \<times> 'a heap" where
  "destroy_and_swap v new_data h =
     (let h1 = emit (replicate (vsize v) Dtor)
                 (set_slots (vdata v) (destroy_n (slots h (vdata v)) 0 (vsize v)) h)
      in case RawMemory_Swap (vdata v) new_data of
           (d, old) \<Rightarrow> (v\<lparr>vdata := d\<rparr>, RawMemory_dtor old h1))"

definition Reserve ::
  "'a elem_type \<Rightarrow> nat \<Rightarrow> Vector \<Rightarrow> 'a heap \<Rightarrow> (unit, Vector \<times> 'a heap) outcome" where
  "Reserve T new_capacity v h =
     (if new_capacity \<le> capacity (vdata v) then Returned () (v, h)
      else
        (case RawMemory_sized T new_capacity h of
           Inl e \<Rightarrow> Thrown e (v, h)
         | Inr (new_data, h1) \<Rightarrow>
             if move_if_noexcept_or_no_copy T then
               (case uninitialized_move_n T (slots h1 (vdata v)) 0 (vsize v) (slots h1 new_data) 0 of
                  (Some e, src, dst, evs) \<Rightarrow>
                    Thrown e (v, RawMemory_dtor new_data
                                   (emit evs (set_slots new_data dst (set_slots (vdata v) src h1))))
                | (None, src, dst, evs) \<Rightarrow>
                    Returned () (destroy_and_swap v new_data
                                   (emit evs (set_slots new_data dst (set_slots (vdata v) src h1)))))
             else
               (case uninitialized_copy_n T (slots h1 (vdata v)) 0 (vsize v) (slots h1 new_data) 0 of
                  (Some e, dst, evs) \<Rightarrow>
                    Thrown e (v, RawMemory_dtor new_data (emit evs (set_slots new_data dst h1)))
                | (None, dst, evs) \<Rightarrow>
                    Returned () (destroy_and_swap v new_data
                                   (emit evs (set_slots new_data dst h1))))))"


text \<open>
  Placement new at the slot \<^verbatim>\<open>m + offset\<close>: the assertion of \<^verbatim>\<open>operator+\<close>, then the
  constructor call, then the object in its slot. A failed assertion aborts where it
  stands; a constructor that throws leaves the block as it was.
\<close>

definition placement_new ::
  "'a elem_type \<Rightarrow> RawMemory \<Rightarrow> nat \<Rightarrow> 'a ctor_call \<Rightarrow> 'a heap \<Rightarrow> error option \<times> 'a heap" where
  "placement_new T m offset c h =
     (case RawMemory_plus m offset of
        Inl e \<Rightarrow> (Some e, h)
      | Inr _ \<Rightarrow>
          (case construct T c of
             (ev, None) \<Rightarrow> (Some ElementOperationError, emit [ev] h)
           | (ev, Some x) \<Rightarrow>
               if length (slots h m) \<le> offset then (Some UndefinedBehaviour, emit [ev] h)
               else (None, emit [ev] (set_slots m ((slots h m)[offset := Some x]) h))))"

definition EmplaceBack ::
  "'a elem_type \<Rightarrow> 'a ctor_call \<Rightarrow> Vector \<Rightarrow> 'a heap
     \<Rightarrow> (addr option \<times> nat, Vector \<times> 'a heap) outcome" where
  "EmplaceBack T c v h =
     (if vsize v = Capacity v then
        (case RawMemory_sized T (if IsEmpty v then 1 else size_t_mul (vsize v) 2) h of
           Inl e \<Rightarrow> Thrown e (v, h)
         | Inr (new_data, h1) \<Rightarrow>
             (case placement_new T new_data (vsize v) c h1 of
                (Some AssertionFailure, h2) \<Rightarrow> Thrown AssertionFailure (v, h2)
              | (Some e, h2) \<Rightarrow> Thrown e (v, RawMemory_dtor new_data h2)
              | (None, h2) \<Rightarrow>
                  if move_if_noexcept_or_no_copy T then
                    (case uninitialized_move_n T (slots h2 (vdata v)) 0 (vsize v)
                            (slots h2 new_data) 0 of
                       (Some e, src, dst, evs) \<Rightarrow>
                         Thrown e (v, RawMemory_dtor new_data
                                        (emit evs (set_slots new_data dst
                                                     (set_slots (vdata v) src h2))))
                     | (None, src, dst, evs) \<Rightarrow>
                         (case destroy_and_swap v new_data
                                 (emit evs (set_slots new_data dst (set_slots (vdata v) src h2))) of
                            (v1, h3) \<Rightarrow>
                              Returned (buffer new_data, vsize v) (v1\<lparr>vsize := vsize v + 1\<rparr>, h3)))
                  else
                    (case uninitialized_copy_n T (slots h2 (vdata v)) 0 (vsize v)
                            (slots h2 new_data) 0 of
                       (Some e, dst, evs) \<Rightarrow>
                         Thrown e (v, RawMemory_dtor new_data (emit evs (set_slots new_data dst h2)))
                     | (None, dst, evs) \<Rightarrow>
                         (case destroy_and_swap v new_data (emit evs (set_slots new_data dst h2)) of
                            (v1, h3) \<Rightarrow>
                              Returned (buffer new_data, vsize v)
                                (v1\<lparr>vsize := vsize v + 1\<rparr>, h3)))))
      else
        (case placement_new T (vdata v) (vsize v) c h of
           (Some e, h1) \<Rightarrow> Thrown e (v, h1)
         | (None, h1) \<Rightarrow> Returned (buffer (vdata v), vsize v) (v\<lparr>vsize := vsize v + 1\<rparr>, h1)))"

definition PushBack_copy ::
  "'a elem_type \<Rightarrow> 'a \<Rightarrow> Vector \<Rightarrow> 'a heap \<Rightarrow> (unit, Vector \<times> 'a heap) outcome" where
  "PushBack_copy T value v h =
     (case EmplaceBack T (CopyOf value) v h of
        Returned _ st \<Rightarrow> Returned () st
      | Thrown e st \<Rightarrow> Thrown e st)"

definition PushBack_move ::
  "'a elem_type \<Rightarrow> 'a \<Rightarrow> Vector \<Rightarrow> 'a heap \<Rightarrow> (unit, Vector \<times> 'a heap) outcome" where
  "PushBack_move T value v h =
     (case EmplaceBack T (MoveOf value) v h of
        Returned _ st \<Rightarrow> Returned () st
      | Thrown e st \<Rightarrow> Thrown e st)"

definition PopBack :: "Vector \<Rightarrow> 'a heap \<Rightarrow> Vector \<times> 'a heap" where
  "PopBack v h =
     (if vsize v > 0 then
        (v\<lparr>vsize := vsize v - 1\<rparr>,
         emit [Dtor] (set_slots (vdata v) ((slots h (vdata v))[vsize v - 1 := None]) h))
      else (v, h))"

text \<open>
  The block under \<^verbatim>\<open>if (size_ != 0)\<close> of \<^verbatim>\<open>Emplace\<close>, when the storage is kept:
  \<^verbatim>\<open>new (data_+size_) T(std::move(*(end()-1)))\<close>, which leaves the last element
  moved-from, then \<^verbatim>\<open>std::move_backward(begin()+shift, end(), end()+1)\<close>, then
  \<^verbatim>\<open>std::destroy_at(begin()+shift)\<close>.
\<close>

definition Emplace_shift ::
  "'a elem_type \<Rightarrow> nat \<Rightarrow> Vector \<Rightarrow> 'a heap \<Rightarrow> error option \<times> 'a heap" where
  "Emplace_shift T pos v h =
     (case slot_at (slots h (vdata v)) (vsize v - 1) of
        None \<Rightarrow> (Some UndefinedBehaviour, h)
      | Some x \<Rightarrow>
          (case placement_new T (vdata v) (vsize v) (MoveOf x) h of
             (Some e, h1) \<Rightarrow> (Some e, h1)
           | (None, h1) \<Rightarrow>
               (case std_move_backward T
                       ((slots h1 (vdata v))[vsize v - 1 := Some (moved_from T x)])
                       pos (vsize v - pos) (vsize v + 1) of
                  (Some e, s, evs) \<Rightarrow> (Some e, emit evs (set_slots (vdata v) s h1))
                | (None, s, evs) \<Rightarrow>
                    (None, emit (evs @ [Dtor]) (set_slots (vdata v) (s[pos := None]) h1)))))"

text \<open>
  \<^verbatim>\<open>Emplace(pos, args...)\<close>. The iterator \<open>pos\<close> is given by its offset from \<^verbatim>\<open>begin()\<close>,
  which is the \<^verbatim>\<open>shift\<close> of the source. In the branch that keeps the storage both arms
  of \<^verbatim>\<open>if constexpr\<close> are the same two statements.
\<close>

definition Emplace ::
  "'a elem_type \<Rightarrow> nat \<Rightarrow> 'a ctor_call \<Rightarrow> Vector \<Rightarrow> 'a heap
     \<Rightarrow> (addr option \<times> nat, Vector \<times> 'a heap) outcome" where
  "Emplace T pos c v h =
     (if \<not> pos \<le> vsize v then Thrown AssertionFailure (v, h)
      else if vsize v = Capacity v then
        (case RawMemory_sized T (if IsEmpty v then 1 else size_t_mul (vsize v) 2) h of
           Inl e \<Rightarrow> Thrown e (v, h)
         | Inr (new_data, h1) \<Rightarrow>
             (case placement_new T new_data pos c h1 of
                (Some AssertionFailure, h2) \<Rightarrow> Thrown AssertionFailure (v, h2)
              | (Some e, h2) \<Rightarrow> Thrown e (v, RawMemory_dtor new_data h2)
              | (None, h2) \<Rightarrow>
                  if move_if_noexcept_or_no_copy T then
                    (case uninitialized_move_n T (slots h2 (vdata v)) 0 pos
                            (slots h2 new_data) 0 of
                       (Some e, src, dst, evs) \<Rightarrow>
                         Thrown e (v, RawMemory_dtor new_data
                                        (emit evs (set_slots new_data dst
                                                     (set_slots (vdata v) src h2))))
                     | (None, src, dst, evs) \<Rightarrow>
                         (case uninitialized_move_n T src pos (vsize v - pos) dst (pos + 1) of
                            (Some e, src', dst', evs') \<Rightarrow>
                              Thrown e (v, RawMemory_dtor new_data
                                             (emit (evs @ evs')
                                                (set_slots new_data dst'
                                                   (set_slots (vdata v) src' h2))))
                          | (None, src', dst', evs') \<Rightarrow>
                              (case destroy_and_swap v new_data
                                      (emit (evs @ evs')
                                         (set_slots new_data dst'
                                            (set_slots (vdata v) src' h2))) of
                                 (v1, h3) \<Rightarrow>
                                   Returned (buffer new_data, pos)
                                     (v1\<lparr>vsize := vsize v + 1\<rparr>, h3))))
                  else
                    (case uninitialized_copy_n T (slots h2 (vdata v)) 0 pos
                            (slots h2 new_data) 0 of
                       (Some e, dst, evs) \<Rightarrow>
                         Thrown e (v, RawMemory_dtor new_data (emit evs (set_slots new_data dst h2)))
                     | (None, dst, evs) \<Rightarrow>
                         (case uninitialized_copy_n T (slots h2 (vdata v)) pos (vsize v - pos)
                                 dst (pos + 1) of
                            (Some e, dst', evs') \<Rightarrow>
                              Thrown e (v, RawMemory_dtor new_data
                                             (emit (evs @ evs') (set_slots new_data dst' h2)))
                          | (None, dst', evs') \<Rightarrow>
                              (case destroy_and_swap v new_data
                                      (emit (evs @ evs') (set_slots new_data dst' h2)) of
                                 (v1, h3) \<Rightarrow>
                                   Returned (buffer new_data, pos)
                                     (v1\<lparr>vsize := vsize v + 1\<rparr>, h3))))))
      else
        (case (if vsize v \<noteq> 0 then Emplace_shift T pos v h else (None, h)) of
           (Some e, h1) \<Rightarrow> Thrown e (v, h1)
         | (None, h1) \<Rightarrow>
             (case placement_new T (vdata v) pos c h1 of
                (Some e, h2) \<Rightarrow> Thrown e (v, h2)
              | (None, h2) \<Rightarrow>
                  Returned (buffer (vdata v), pos) (v\<lparr>vsize := vsize v + 1\<rparr>, h2))))"

definition Insert_copy ::
  "'a elem_type \<Rightarrow> nat \<Rightarrow> 'a \<Rightarrow> Vector \<Rightarrow> 'a heap
     \<Rightarrow> (addr option \<times> nat, Vector \<times> 'a heap) outcome" where
  "Insert_copy T pos value v h = Emplace T pos (CopyOf value) v h"

definition Insert_move ::
  "'a elem_type \<Rightarrow> nat \<Rightarrow> 'a \<Rightarrow> Vector \<Rightarrow> 'a heap
     \<Rightarrow> (addr option \<times> nat, Vector \<times> 'a heap) outcome" where
  "Insert_move T pos value v h = Emplace T pos (MoveOf value) v h"

definition Erase ::
  "'a elem_type \<Rightarrow> nat \<Rightarrow> Vector \<Rightarrow> 'a heap
     \<Rightarrow> (addr option \<times> nat, Vector \<times> 'a heap) outcome" where
  "Erase T pos v h =
     (if \<not> pos < vsize v then Thrown AssertionFailure (v, h)
      else
        (case std_move T (slots h (vdata v)) (pos + 1) (vsize v - (pos + 1)) pos of
           (Some e, s, evs) \<Rightarrow> Thrown e (v, emit evs (set_slots (vdata v) s h))
         | (None, s, evs) \<Rightarrow>
             (case PopBack v (emit evs (set_slots (vdata v) s h)) of
                (v1, h1) \<Rightarrow> Returned (buffer (vdata v1), pos) (v1, h1))))"

text \<open>
  The body of the copy assignment under \<^verbatim>\<open>if (this != &rhs)\<close>, for the two distinct
  objects \<open>v\<close> (the target) and \<open>rhs\<close>. The temporary \<^verbatim>\<open>rhs_copy\<close> is destroyed at the end
  of its scope, after the swap.
\<close>

definition copy_assign_body ::
  "'a elem_type \<Rightarrow> Vector \<Rightarrow> Vector \<Rightarrow> 'a heap \<Rightarrow> (unit, Vector \<times> 'a heap) outcome" where
  "copy_assign_body T v rhs h =
     (if capacity (vdata v) < vsize rhs then
        (case Vector_copy_ctor T rhs h of
           Thrown e h1 \<Rightarrow> Thrown e (v, h1)
         | Returned rhs_copy h1 \<Rightarrow>
             (case Swap v rhs_copy of
                (v1, rhs_copy1) \<Rightarrow> Returned () (v1, Vector_dtor rhs_copy1 h1)))
      else if vsize rhs < vsize v then
        (case std_copy T (slots h (vdata rhs)) 0 (vsize rhs) (slots h (vdata v)) 0 of
           (Some e, s, evs) \<Rightarrow> Thrown e (v, emit evs (set_slots (vdata v) s h))
         | (None, s, evs) \<Rightarrow>
             Returned ()
               (v\<lparr>vsize := vsize rhs\<rparr>,
                emit (evs @ replicate (vsize v - vsize rhs) Dtor)
                  (set_slots (vdata v) (destroy_n s (vsize rhs) (vsize v - vsize rhs)) h)))
      else
        (case std_copy T (slots h (vdata rhs)) 0 (vsize v) (slots h (vdata v)) 0 of
           (Some e, s, evs) \<Rightarrow> Thrown e (v, emit evs (set_slots (vdata v) s h))
         | (None, s, evs) \<Rightarrow>
             (case uninitialized_copy_n T (slots h (vdata rhs)) (vsize v) (vsize rhs - vsize v)
                     s (vsize v) of
                (Some e, s', evs') \<Rightarrow>
                  Thrown e (v, emit (evs @ evs') (set_slots (vdata v) s' h))
              | (None, s', evs') \<Rightarrow>
                  Returned ()
                    (v\<lparr>vsize := vsize rhs\<rparr>, emit (evs @ evs') (set_slots (vdata v) s' h)))))"

text \<open>
  The assignment operators compare the addresses of the two objects, so they work on a
  store of vector objects: \<open>this\<close> and \<open>rhs\<close> are the addresses of the target and of the
  source.
\<close>

type_synonym objects = "addr \<Rightarrow> Vector option"

definition Vector_copy_assign ::
  "'a elem_type \<Rightarrow> addr \<Rightarrow> addr \<Rightarrow> objects \<Rightarrow> 'a heap \<Rightarrow> (unit, objects \<times> 'a heap) outcome" where
  "Vector_copy_assign T this rhs objs h =
     (if this \<noteq> rhs then
        (case (objs this, objs rhs) of
           (Some v, Some w) \<Rightarrow>
             (case copy_assign_body T v w h of
                Returned _ (v1, h1) \<Rightarrow> Returned () (objs(this \<mapsto> v1), h1)
              | Thrown e (v1, h1) \<Rightarrow> Thrown e (objs(this \<mapsto> v1), h1))
         | _ \<Rightarrow> Thrown UndefinedBehaviour (objs, h))
      else Returned () (objs, h))"

definition Vector_move_assign ::
  "addr \<Rightarrow> addr \<Rightarrow> objects \<Rightarrow> 'a heap \<Rightarrow> (unit, objects \<times> 'a heap) outcome" where
  "Vector_move_assign this rhs objs h =
     (if this \<noteq> rhs then
        (case (objs this, objs rhs) of
           (Some v, Some w) \<Rightarrow>
             (case Swap v w of (v1, w1) \<Rightarrow> Returned () (objs(this \<mapsto> v1, rhs \<mapsto> w1), h))
         | _ \<Rightarrow> Thrown UndefinedBehaviour (objs, h))
      else Returned () (objs, h))"

section \<open>The representation invariant and the abstract contents\<close>

text \<open>
  The invariant of a vector in a heap: the size is at most the capacity, the buffer is a
  block of exactly \<open>capacity\<close> slots (or null, with capacity \<open>0\<close>), the slots below the size
  hold live objects and the slots from the size on are raw.
\<close>

definition vector_inv :: "'a heap \<Rightarrow> Vector \<Rightarrow> bool" where
  "vector_inv h v =
     (vsize v \<le> capacity (vdata v) \<and>
      (case buffer (vdata v) of
         None \<Rightarrow> capacity (vdata v) = 0
       | Some a \<Rightarrow> a < next_addr h \<and>
           (case blocks h a of
              None \<Rightarrow> False
            | Some s \<Rightarrow> length s = capacity (vdata v) \<and>
                list_all (\<lambda>x. x \<noteq> None) (take (vsize v) s) \<and>
                list_all (\<lambda>x. x = None) (drop (vsize v) s))))"

text \<open>The values of the elements, in index order.\<close>

definition elems :: "'a heap \<Rightarrow> Vector \<Rightarrow> 'a list" where
  "elems h v = map the (take (vsize v) (slots h (vdata v)))"

definition state_of :: "('r, 's) outcome \<Rightarrow> 's" where
  "state_of r = (case r of Returned _ s \<Rightarrow> s | Thrown _ s \<Rightarrow> s)"

definition returned :: "('r, 's) outcome \<Rightarrow> bool" where
  "returned r = (case r of Returned _ _ \<Rightarrow> True | Thrown _ _ \<Rightarrow> False)"

section \<open>Element types and states for the concrete cases\<close>

text \<open>
  An element type like \<^verbatim>\<open>int\<close>: four bytes, nothing throws, a move leaves the source as it was and
  \<^verbatim>\<open>T()\<close> is zero.
\<close>

definition arithmetic :: "int elem_type" where
  "arithmetic =
     \<lparr>size_of = 4, is_nothrow_move_constructible = True, is_copy_constructible = True,
      value_ctor = Some 0,
      copy_ctor_throws = (\<lambda>_. False), move_ctor_throws = (\<lambda>_. False),
      copy_assign_throws = (\<lambda>_. False), move_assign_throws = (\<lambda>_. False),
      moved_from = (\<lambda>x. x)\<rparr>"

text \<open>
  An element type like \<^verbatim>\<open>std::string\<close>: nothing throws, and a move leaves the source
  empty.
\<close>

definition string_like :: "string elem_type" where
  "string_like =
     \<lparr>size_of = 32, is_nothrow_move_constructible = True, is_copy_constructible = True,
      value_ctor = Some [],
      copy_ctor_throws = (\<lambda>_. False), move_ctor_throws = (\<lambda>_. False),
      copy_assign_throws = (\<lambda>_. False), move_assign_throws = (\<lambda>_. False),
      moved_from = (\<lambda>_. [])\<rparr>"

text \<open>
  An element type whose move constructor may throw and that can be copied; copying the
  value \<open>13\<close> throws.
\<close>

definition unlucky :: "nat elem_type" where
  "unlucky =
     \<lparr>size_of = 8, is_nothrow_move_constructible = False, is_copy_constructible = True,
      value_ctor = Some 0,
      copy_ctor_throws = (\<lambda>x. x = 13), move_ctor_throws = (\<lambda>_. False),
      copy_assign_throws = (\<lambda>x. x = 13), move_assign_throws = (\<lambda>_. False),
      moved_from = (\<lambda>x. x)\<rparr>"

text \<open>A heap with the given blocks at the addresses \<open>0, 1, \<dots>\<close>, and an allocator that never fails.\<close>

definition heap_of :: "'a option list list \<Rightarrow> 'a heap" where
  "heap_of bs =
     \<lparr>blocks = (\<lambda>a. if a < length bs then Some (bs ! a) else None),
      next_addr = length bs, new_fails = (\<lambda>_. False), trace = []\<rparr>"

definition vector_at :: "addr \<Rightarrow> nat \<Rightarrow> nat \<Rightarrow> Vector" where
  "vector_at a cap n = \<lparr>vdata = \<lparr>buffer = Some a, capacity = cap\<rparr>, vsize = n\<rparr>"

section \<open>Swapping\<close>

lemma RawMemory_Swap_eq: "RawMemory_Swap (a :: RawMemory) (b :: RawMemory) = (b, a)"
  by (cases a, cases b) (simp add: RawMemory_Swap_def)

lemma Swap_eq: "Swap (v :: Vector) (w :: Vector) = (w, v)"
  by (cases v, cases w) (simp add: Swap_def RawMemory_Swap_eq)

section \<open>The standard algorithms when nothing throws\<close>

lemma slot_at_append_here [simp]: "slot_at (pre @ x # post) (length pre) = x"
  by (simp add: slot_at_def)


lemma uninitialized_move_n_ok:
  assumes "\<forall>x\<in>set xs. \<not> move_ctor_throws T x" and "length mid = length xs"
  shows "uninitialized_move_n T (pre @ map Some xs @ post) (length pre) (length xs)
           (dpre @ mid @ dpost) (length dpre)
         = (None, pre @ map (\<lambda>x. Some (moved_from T x)) xs @ post,
            dpre @ map Some xs @ dpost, replicate (length xs) MoveCtor)"
  using assms
proof (induction xs arbitrary: pre dpre mid)
  case Nil
  then show ?case by simp
next
  case (Cons x xs)
  then obtain m mid' where mid: "mid = m # mid'" and len: "length mid' = length xs"
    by (cases mid) auto
  have nothrow: "\<forall>y\<in>set xs. \<not> move_ctor_throws T y" and nx: "\<not> move_ctor_throws T x"
    using Cons.prems by auto
  have ih: "uninitialized_move_n T ((pre @ [Some (moved_from T x)]) @ map Some xs @ post)
              (length (pre @ [Some (moved_from T x)])) (length xs)
              ((dpre @ [Some x]) @ mid' @ dpost) (length (dpre @ [Some x]))
            = (None, (pre @ [Some (moved_from T x)]) @ map (\<lambda>x. Some (moved_from T x)) xs @ post,
               (dpre @ [Some x]) @ map Some xs @ dpost, replicate (length xs) MoveCtor)"
    using nothrow len by (rule Cons.IH)
  show ?case
    using ih nx by (simp add: mid)
qed

lemma uninitialized_copy_n_ok:
  assumes "\<forall>x\<in>set xs. \<not> copy_ctor_throws T x" and "length mid = length xs"
  shows "uninitialized_copy_n T (pre @ map Some xs @ post) (length pre) (length xs)
           (dpre @ mid @ dpost) (length dpre)
         = (None, dpre @ map Some xs @ dpost, replicate (length xs) CopyCtor)"
  using assms
proof (induction xs arbitrary: pre dpre mid)
  case Nil
  then show ?case by simp
next
  case (Cons x xs)
  then obtain m mid' where mid: "mid = m # mid'" and len: "length mid' = length xs"
    by (cases mid) auto
  have nothrow: "\<forall>y\<in>set xs. \<not> copy_ctor_throws T y" and nx: "\<not> copy_ctor_throws T x"
    using Cons.prems by auto
  have ih: "uninitialized_copy_n T ((pre @ [Some x]) @ map Some xs @ post)
              (length (pre @ [Some x])) (length xs)
              ((dpre @ [Some x]) @ mid' @ dpost) (length (dpre @ [Some x]))
            = (None, (dpre @ [Some x]) @ map Some xs @ dpost, replicate (length xs) CopyCtor)"
    using nothrow len by (rule Cons.IH)
  show ?case
    using ih nx by (simp add: mid)
qed




lemma map_Some_the: "list_all (\<lambda>x. x \<noteq> None) xs \<Longrightarrow> map Some (map the xs) = xs"
  by (induction xs) auto

lemma all_None_replicate: "list_all (\<lambda>x. x = None) xs \<Longrightarrow> xs = replicate (length xs) None"
  by (induction xs) auto

lemma vector_inv_slots:
  assumes "vector_inv h v"
  shows "slots h (vdata v) = map Some (elems h v) @ replicate (capacity (vdata v) - vsize v) None"
proof (cases "buffer (vdata v)")
  case None
  with assms show ?thesis
    by (simp add: vector_inv_def slots_def elems_def)
next
  case (Some a)
  with assms obtain s where s: "blocks h a = Some s" "length s = capacity (vdata v)"
    "list_all (\<lambda>x. x \<noteq> None) (take (vsize v) s)" "list_all (\<lambda>x. x = None) (drop (vsize v) s)"
    by (auto simp: vector_inv_def split: option.splits)
  have "s = take (vsize v) s @ drop (vsize v) s" by simp
  also have "\<dots> = map Some (map the (take (vsize v) s)) @ replicate (length (drop (vsize v) s)) None"
    using map_Some_the [OF s(3)] all_None_replicate [OF s(4)] by simp
  finally show ?thesis
    using Some s(1,2) by (simp add: slots_def elems_def)
qed

lemma vector_inv_length: "vector_inv h v \<Longrightarrow> length (elems h v) = vsize v"
  by (auto simp: vector_inv_def elems_def slots_def split: option.splits)


lemma vector_inv_cases [consumes 1, case_names null block]:
  assumes "vector_inv h v"
  obtains "buffer (vdata v) = None" "capacity (vdata v) = 0" "vsize v = 0" "elems h v = []"
  | a k where "buffer (vdata v) = Some a" "a < next_addr h"
      "blocks h a = Some (map Some (elems h v) @ replicate k None)"
      "vsize v = length (elems h v)" "capacity (vdata v) = length (elems h v) + k"
proof (cases "buffer (vdata v)")
  case None
  with assms have "capacity (vdata v) = 0" "vsize v = 0" "elems h v = []"
    by (simp_all add: vector_inv_def elems_def)
  with None show ?thesis by (rule that(1))
next
  case (Some a)
  have sl: "slots h (vdata v) = map Some (elems h v) @ replicate (capacity (vdata v) - vsize v) None"
    using assms by (rule vector_inv_slots)
  have len: "length (elems h v) = vsize v" using assms by (rule vector_inv_length)
  from assms Some obtain s where s: "blocks h a = Some s" and a: "a < next_addr h"
    and le: "vsize v \<le> capacity (vdata v)"
    by (auto simp: vector_inv_def split: option.splits)
  from sl Some s have "s = map Some (elems h v) @ replicate (capacity (vdata v) - vsize v) None"
    by (simp add: slots_def)
  with s have "blocks h a = Some (map Some (elems h v) @ replicate (capacity (vdata v) - vsize v) None)"
    by simp
  moreover have "capacity (vdata v) = length (elems h v) + (capacity (vdata v) - vsize v)"
    using le len by simp
  ultimately show ?thesis
    using Some a len by (intro that(2)) simp_all
qed

lemma RawMemory_sized_fits:
  assumes "0 < size_of T" and "n * size_of T < 2 ^ 64"
  shows "RawMemory_sized T n h =
     (if n \<noteq> 0 then
        (if new_fails h n then Inl AllocationError
         else Inr (\<lparr>buffer = Some (next_addr h), capacity = n\<rparr>,
                   h\<lparr>blocks := (blocks h)(next_addr h \<mapsto> replicate n None),
                     next_addr := Suc (next_addr h),
                     trace := trace h @ [New (next_addr h) n]\<rparr>))
      else Inr (\<lparr>buffer = None, capacity = n\<rparr>, h))"
  using assms by (simp add: RawMemory_sized_def Allocate_def size_t_mul_def)


lemma growth_eq: "n < 2 ^ 63 \<Longrightarrow> (if 0 = n then 1 else size_t_mul n 2) = max 1 (n * 2)"
  by (auto simp: size_t_mul_def)

lemma fits_bound:
  assumes "max 1 (k * 2) * s < (2 :: nat) ^ 64" and "0 < s"
  shows "k < 2 ^ 63"
proof (rule ccontr)
  assume "\<not> k < 2 ^ 63"
  then have "(2 :: nat) ^ 63 * 2 \<le> k * 2" by simp
  also have "\<dots> \<le> max 1 (k * 2) * 1" by simp
  also have "\<dots> \<le> max 1 (k * 2) * s" using assms(2) by (intro mult_le_mono) simp_all
  finally show False using assms(1) by simp
qed

lemma replicate_update:
  "i < n \<Longrightarrow> (replicate n y)[i := x] = replicate i y @ x # replicate (n - i - 1) y"
  by (simp add: upd_conv_take_nth_drop min_def)

lemma Vector_update_eq:
  "(v :: Vector)\<lparr>vdata := d\<rparr> = \<lparr>vdata = d, vsize = vsize v\<rparr>"
  "(v :: Vector)\<lparr>vsize := k\<rparr> = \<lparr>vdata = vdata v, vsize = k\<rparr>"
  by (cases v, simp)+

lemma EmplaceBack_grows_to:
  assumes inv: "vector_inv h v" and full: "vsize v = capacity (vdata v)"
    and cap: "(if IsEmpty v then 1 else size_t_mul (vsize v) 2) = n" and lt: "vsize v < n"
    and alloc: "\<not> new_fails h n"
    and ctor: "construct T c = (ev, Some x)"
    and nothrow: "\<forall>x\<in>set (elems h v).
       \<not> (if move_if_noexcept_or_no_copy T then move_ctor_throws T x else copy_ctor_throws T x)"
    and ss: "0 < size_of T" and nw: "n * size_of T < 2 ^ 64"
  shows "\<exists>h'. EmplaceBack T c v h
            = Returned (Some (next_addr h), vsize v)
                (\<lparr>vdata = \<lparr>buffer = Some (next_addr h), capacity = n\<rparr>,
                  vsize = vsize v + 1\<rparr>, h')
     \<and> blocks h' (next_addr h)
         = Some (map Some (elems h v @ [x]) @ replicate (n - vsize v - 1) None)
     \<and> trace h' = trace h @ [New (next_addr h) n, ev]
          @ replicate (vsize v) (if move_if_noexcept_or_no_copy T then MoveCtor else CopyCtor)
          @ replicate (vsize v) Dtor
          @ (case buffer (vdata v) of None \<Rightarrow> [] | Some a \<Rightarrow> [Delete a])
     \<and> next_addr h' = Suc (next_addr h) \<and> new_fails h' = new_fails h
     \<and> (\<forall>b. b \<noteq> next_addr h \<longrightarrow> Some b \<noteq> buffer (vdata v) \<longrightarrow> blocks h' b = blocks h b)
     \<and> (\<forall>a. buffer (vdata v) = Some a \<longrightarrow> blocks h' a = None)"
proof -
  have upd: "(replicate n None)[vsize v := Some x]
      = replicate (vsize v) None @ Some x # replicate (n - vsize v - 1) None"
    using lt by (rule replicate_update)
  have n0: "n \<noteq> 0" using lt by simp
  from inv show ?thesis
  proof (cases rule: vector_inv_cases)
    case null
    show ?thesis
      unfolding EmplaceBack_def cap
      using null full alloc ctor lt n0 upd
      by (simp add: Capacity_def RawMemory_sized_fits [OF ss nw] slots_def
          set_slots_def emit_def placement_new_def RawMemory_plus_def Vector_update_eq
          destroy_and_swap_def RawMemory_Swap_eq RawMemory_dtor_def Deallocate_def)
  next
    case (block a k)
    let ?xs = "elems h v"
    have k: "k = 0" using full block by simp
    show ?thesis
    proof (cases "move_if_noexcept_or_no_copy T")
      case True
      with nothrow have nt: "\<forall>x\<in>set ?xs. \<not> move_ctor_throws T x" by simp
      have loop: "uninitialized_move_n T (map Some ?xs) 0 (length ?xs)
            (replicate (length ?xs) None @ Some x # replicate (n - length ?xs - 1) None) 0
          = (None, map (\<lambda>x. Some (moved_from T x)) ?xs,
             map Some ?xs @ Some x # replicate (n - length ?xs - 1) None, replicate (length ?xs) MoveCtor)"
        using uninitialized_move_n_ok [OF nt, of "replicate (length ?xs) None" "[]" "[]" "[]"
            "Some x # replicate (n - length ?xs - 1) None"]
        by simp
      show ?thesis
        unfolding EmplaceBack_def cap
        using full alloc ctor True block k loop upd lt n0
        by (simp add: Capacity_def RawMemory_sized_fits [OF ss nw] slots_def
            set_slots_def emit_def placement_new_def RawMemory_plus_def Vector_update_eq
            destroy_and_swap_def RawMemory_Swap_eq RawMemory_dtor_def Deallocate_def)
    next
      case False
      with nothrow have nt: "\<forall>x\<in>set ?xs. \<not> copy_ctor_throws T x" by simp
      have loop: "uninitialized_copy_n T (map Some ?xs) 0 (length ?xs)
            (replicate (length ?xs) None @ Some x # replicate (n - length ?xs - 1) None) 0
          = (None, map Some ?xs @ Some x # replicate (n - length ?xs - 1) None,
             replicate (length ?xs) CopyCtor)"
        using uninitialized_copy_n_ok [OF nt, of "replicate (length ?xs) None" "[]" "[]" "[]"
            "Some x # replicate (n - length ?xs - 1) None"]
        by simp
      show ?thesis
        unfolding EmplaceBack_def cap
        using full alloc ctor False block k loop upd lt n0
        by (simp add: Capacity_def RawMemory_sized_fits [OF ss nw] slots_def
            set_slots_def emit_def placement_new_def RawMemory_plus_def Vector_update_eq
            destroy_and_swap_def RawMemory_Swap_eq RawMemory_dtor_def Deallocate_def)
    qed
  qed
qed

lemma Emplace_grows_to:
  assumes inv: "vector_inv h v" and full: "vsize v = capacity (vdata v)"
    and cap: "(if IsEmpty v then 1 else size_t_mul (vsize v) 2) = n" and lt: "vsize v < n"
    and pos: "pos \<le> vsize v"
    and alloc: "\<not> new_fails h n"
    and ctor: "construct T c = (ev, Some x)"
    and nothrow: "\<forall>x\<in>set (elems h v).
       \<not> (if move_if_noexcept_or_no_copy T then move_ctor_throws T x else copy_ctor_throws T x)"
    and ss: "0 < size_of T" and nw: "n * size_of T < 2 ^ 64"
  shows "\<exists>h'. Emplace T pos c v h
            = Returned (Some (next_addr h), pos)
                (\<lparr>vdata = \<lparr>buffer = Some (next_addr h), capacity = n\<rparr>,
                  vsize = vsize v + 1\<rparr>, h')
     \<and> blocks h' (next_addr h)
         = Some (map Some (take pos (elems h v) @ x # drop pos (elems h v))
                 @ replicate (n - vsize v - 1) None)
     \<and> trace h' = trace h @ [New (next_addr h) n, ev]
          @ replicate (vsize v) (if move_if_noexcept_or_no_copy T then MoveCtor else CopyCtor)
          @ replicate (vsize v) Dtor
          @ (case buffer (vdata v) of None \<Rightarrow> [] | Some a \<Rightarrow> [Delete a])
     \<and> next_addr h' = Suc (next_addr h) \<and> new_fails h' = new_fails h
     \<and> (\<forall>b. b \<noteq> next_addr h \<longrightarrow> Some b \<noteq> buffer (vdata v) \<longrightarrow> blocks h' b = blocks h b)
     \<and> (\<forall>a. buffer (vdata v) = Some a \<longrightarrow> blocks h' a = None)"
proof -
  have plt: "pos < n" using pos lt by simp
  have upd: "(replicate n None)[pos := Some x]
      = replicate pos None @ Some x # replicate (n - pos - 1) None"
    using plt by (rule replicate_update)
  have n0: "n \<noteq> 0" using lt by simp
  from inv show ?thesis
  proof (cases rule: vector_inv_cases)
    case null
    show ?thesis
      unfolding Emplace_def cap
      using null full alloc ctor lt n0 upd pos
      by (simp add: Capacity_def RawMemory_sized_fits [OF ss nw] slots_def
          set_slots_def emit_def placement_new_def RawMemory_plus_def Vector_update_eq
          destroy_and_swap_def RawMemory_Swap_eq RawMemory_dtor_def Deallocate_def)
  next
    case (block a k)
    let ?xs = "elems h v"
    let ?R = "replicate (n - pos - 1) (None :: 'a option)"
    have k: "k = 0" using full block by simp
    have split: "map Some ?xs = map Some (take pos ?xs) @ map Some (drop pos ?xs)"
      by (simp flip: map_append)
    have lp: "length (take pos ?xs) = pos" "length (drop pos ?xs) = vsize v - pos"
      using pos block(4) by simp_all
    have R: "?R = replicate (vsize v - pos) None @ replicate (n - vsize v - 1) None"
      using pos lt by (simp flip: replicate_add)
    have evs: "replicate pos e @ replicate (vsize v - pos) e = replicate (vsize v) e" for e :: event
      using pos by (simp flip: replicate_add)
    show ?thesis
    proof (cases "move_if_noexcept_or_no_copy T")
      case True
      with nothrow have nt: "\<forall>x\<in>set ?xs. \<not> move_ctor_throws T x" by simp
      have nt1: "\<forall>x\<in>set (take pos ?xs). \<not> move_ctor_throws T x"
        and nt2: "\<forall>x\<in>set (drop pos ?xs). \<not> move_ctor_throws T x"
        using nt by (auto dest: in_set_takeD in_set_dropD)
      have loop1: "uninitialized_move_n T (map Some ?xs) 0 pos (replicate pos None @ Some x # ?R) 0
          = (None, map (\<lambda>x. Some (moved_from T x)) (take pos ?xs) @ map Some (drop pos ?xs),
             map Some (take pos ?xs) @ Some x # ?R, replicate pos MoveCtor)"
        using uninitialized_move_n_ok [OF nt1, where mid = "replicate pos None" and pre = "[]"
            and post = "map Some (drop pos ?xs)" and dpre = "[]" and dpost = "Some x # ?R"] lp split
        by simp
      have loop2: "uninitialized_move_n T
            (map (\<lambda>x. Some (moved_from T x)) (take pos ?xs) @ map Some (drop pos ?xs))
            pos (vsize v - pos) (map Some (take pos ?xs) @ Some x # ?R) (Suc pos)
          = (None, map (\<lambda>x. Some (moved_from T x)) (take pos ?xs)
                   @ map (\<lambda>x. Some (moved_from T x)) (drop pos ?xs),
             map Some (take pos ?xs) @ Some x # map Some (drop pos ?xs)
               @ replicate (n - vsize v - 1) None,
             replicate (vsize v - pos) MoveCtor)"
        using uninitialized_move_n_ok [OF nt2, where mid = "replicate (vsize v - pos) None"
            and pre = "map (\<lambda>x. Some (moved_from T x)) (take pos ?xs)"
            and post = "[]" and dpre = "map Some (take pos ?xs) @ [Some x]"
            and dpost = "replicate (n - vsize v - 1) None"] lp R
        by simp
      show ?thesis
        unfolding Emplace_def cap
        using full alloc ctor True block k loop1 loop2 upd lt n0 pos plt evs
        by (simp add: Capacity_def RawMemory_sized_fits [OF ss nw] slots_def
            set_slots_def emit_def placement_new_def RawMemory_plus_def Vector_update_eq
            destroy_and_swap_def RawMemory_Swap_eq RawMemory_dtor_def Deallocate_def)
    next
      case False
      with nothrow have nt: "\<forall>x\<in>set ?xs. \<not> copy_ctor_throws T x" by simp
      have nt1: "\<forall>x\<in>set (take pos ?xs). \<not> copy_ctor_throws T x"
        and nt2: "\<forall>x\<in>set (drop pos ?xs). \<not> copy_ctor_throws T x"
        using nt by (auto dest: in_set_takeD in_set_dropD)
      have loop1: "uninitialized_copy_n T (map Some ?xs) 0 pos (replicate pos None @ Some x # ?R) 0
          = (None, map Some (take pos ?xs) @ Some x # ?R, replicate pos CopyCtor)"
        using uninitialized_copy_n_ok [OF nt1, where mid = "replicate pos None" and pre = "[]"
            and post = "map Some (drop pos ?xs)" and dpre = "[]" and dpost = "Some x # ?R"] lp split
        by simp
      have loop2: "uninitialized_copy_n T (map Some ?xs)
            pos (vsize v - pos) (map Some (take pos ?xs) @ Some x # ?R) (Suc pos)
          = (None, map Some (take pos ?xs) @ Some x # map Some (drop pos ?xs)
               @ replicate (n - vsize v - 1) None,
             replicate (vsize v - pos) CopyCtor)"
        using uninitialized_copy_n_ok [OF nt2, where mid = "replicate (vsize v - pos) None"
            and pre = "map Some (take pos ?xs)"
            and post = "[]" and dpre = "map Some (take pos ?xs) @ [Some x]"
            and dpost = "replicate (n - vsize v - 1) None"] lp R split
        by simp
      show ?thesis
        unfolding Emplace_def cap
        using full alloc ctor False block k loop1 loop2 upd lt n0 pos plt evs
        by (simp add: Capacity_def RawMemory_sized_fits [OF ss nw] slots_def
            set_slots_def emit_def placement_new_def RawMemory_plus_def Vector_update_eq
            destroy_and_swap_def RawMemory_Swap_eq RawMemory_dtor_def Deallocate_def)
    qed
  qed
qed

lemma vector_inv_block:
  assumes "buffer (vdata w) = Some a" and "a < next_addr h"
    and "blocks h a = Some (map Some xs @ replicate k None)"
    and "vsize w = length xs" and "capacity (vdata w) = length xs + k"
  shows "vector_inv h w" and "elems h w = xs"
  using assms by (simp_all add: vector_inv_def elems_def slots_def list_all_iff comp_def)

section \<open>Raw storage: move construction and move assignment\<close>

text \<open>
  C4. The claim: move construction and move assignment of a raw storage hand the block and
  its capacity to the target and leave the source empty (null address, capacity zero), so
  that the source no longer frees the block. In the code both operations copy the two
  fields and leave the source as it was: after moving from a storage that owns block \<open>0\<close>
  with four slots, source and target both hold address \<open>0\<close> and capacity \<open>4\<close>, the source is
  not the empty storage, and the two destructors delete block \<open>0\<close> twice.
\<close>

theorem RawMemory_move_keeps_source:
  "RawMemory_move_ctor \<lparr>buffer = Some 0, capacity = 4\<rparr>
     = (\<lparr>buffer = Some 0, capacity = 4\<rparr>, \<lparr>buffer = Some 0, capacity = 4\<rparr>)
   \<and> RawMemory_move_assign RawMemory_default \<lparr>buffer = Some 0, capacity = 4\<rparr>
     = (\<lparr>buffer = Some 0, capacity = 4\<rparr>, \<lparr>buffer = Some 0, capacity = 4\<rparr>)
   \<and> snd (RawMemory_move_ctor \<lparr>buffer = Some 0, capacity = 4\<rparr>) \<noteq> RawMemory_default
   \<and> trace (RawMemory_dtor (snd (RawMemory_move_ctor \<lparr>buffer = Some 0, capacity = 4\<rparr>))
        (RawMemory_dtor (fst (RawMemory_move_ctor \<lparr>buffer = Some 0, capacity = 4\<rparr>))
           (heap_of [[None, None, None, None :: int option]])))
     = [Delete 0, Delete 0]"
  by (simp add: RawMemory_move_ctor_def RawMemory_move_assign_def RawMemory_default_def
      RawMemory_dtor_def Deallocate_def heap_of_def)

section \<open>Assignment of a vector to itself\<close>

text \<open>
  C9. Copy assignment and move assignment of a vector to itself (the two addresses are
  equal) return with the store of objects and the heap exactly as they were, so the size,
  the capacity and the element values of the vector are unchanged.
\<close>

theorem self_assignment_noop:
  "Vector_copy_assign T a a objs h = Returned () (objs, h)
   \<and> Vector_move_assign a a objs h = Returned () (objs, h)"
  by (simp add: Vector_copy_assign_def Vector_move_assign_def)

section \<open>Move construction and move assignment of vectors\<close>

text \<open>
  C5, the claim as stated fails: move assignment swaps the two vectors, so a source moved
  into a target of size one has size one afterwards, not zero.
\<close>

theorem move_assign_source_not_empty:
  "map_option Size
     (fst (state_of (Vector_move_assign 0 1 [0 \<mapsto> vector_at 0 1 1, 1 \<mapsto> vector_at 1 2 2]
                       (heap_of [[Some (5 :: int)], [Some 6, Some 7]]))) 1) = Some 1"
  by (simp add: Vector_move_assign_def Swap_eq state_of_def Size_def vector_at_def)

text \<open>
  C5, amended. Move construction leaves the source empty (size zero, null buffer, capacity
  zero) and gives the new vector the source's storage and size, hence its element values.
  Move assignment between two distinct vectors exchanges them and leaves the heap alone:
  the target gets the source's storage, size and values, and the source gets what the
  target had, so it is empty afterwards exactly when the target was empty before.
\<close>

theorem Vector_move_swaps:
  "Vector_move_ctor other = (other, Vector_default)
   \<and> elems h (fst (Vector_move_ctor other)) = elems h other
   \<and> Size (snd (Vector_move_ctor other)) = 0
   \<and> (this \<noteq> rhs \<longrightarrow> objs this = Some v \<longrightarrow> objs rhs = Some w \<longrightarrow>
        Vector_move_assign this rhs objs h = Returned () (objs(this \<mapsto> w, rhs \<mapsto> v), h))"
  by (simp add: Vector_move_ctor_def Vector_move_assign_def Swap_eq Size_def)
    (simp add: Vector_default_def)

theorem Vector_move_swaps_witness:
  "(0 :: addr) \<noteq> 1
   \<and> Vector_move_assign 0 1 [0 \<mapsto> vector_at 0 1 1, 1 \<mapsto> vector_at 1 2 2]
        (heap_of [[Some (5 :: int)], [Some 6, Some 7]])
     = Returned () ([0 \<mapsto> vector_at 1 2 2, 1 \<mapsto> vector_at 0 1 1],
                    heap_of [[Some 5], [Some 6, Some 7]])"
  using Vector_move_swaps [of "vector_at 1 2 2" "heap_of [[Some (5 :: int)], [Some 6, Some 7]]"
      0 1 "[0 \<mapsto> vector_at 0 1 1, 1 \<mapsto> vector_at 1 2 2]" "vector_at 0 1 1" "vector_at 1 2 2"]
  by simp

section \<open>The transfer rule of the growth paths\<close>



text \<open>
  A request whose byte count does not fit \<^verbatim>\<open>size_t\<close> is outside these hypotheses: for
  eight-byte elements \<^verbatim>\<open>Reserve(2^61 + 1)\<close> asks \<^verbatim>\<open>operator new\<close> for eight bytes, the new
  block has one slot, and the transfer of the second element leaves the block.
\<close>

lemma Reserve_wrapping_request:
  "Reserve unlucky (2 ^ 61 + 1) (vector_at 0 2 2) (heap_of [[Some 1, Some 2]])
     = Thrown UndefinedBehaviour
         (vector_at 0 2 2,
          (heap_of [[Some 1, Some 2]])
            \<lparr>blocks := (blocks (heap_of [[Some 1, Some 2]]))(1 := None),
              next_addr := 2,
              trace := [New 1 (2 ^ 61 + 1), CopyCtor, Dtor, Delete 1]\<rparr>)"
proof -
  have sz: "size_t_mul (2 ^ 61 + 1) (size_of unlucky) div size_of unlucky = 1"
    by (simp add: size_t_mul_def unlucky_def)
  have loop: "uninitialized_copy_n unlucky [Some 1, Some 2] 0 2 [None] 0
      = (Some UndefinedBehaviour, [None], [CopyCtor, Dtor])"
    by (simp add: numeral_2_eq_2 slot_at_def unlucky_def)
  have strategy: "\<not> move_if_noexcept_or_no_copy unlucky"
    by (simp add: move_if_noexcept_or_no_copy_def unlucky_def)
  show ?thesis
    using sz loop strategy
    by (simp add: Reserve_def RawMemory_sized_def Allocate_def vector_at_def heap_of_def
        slots_def set_slots_def emit_def RawMemory_dtor_def Deallocate_def)
qed

section \<open>A constructor that throws while appending\<close>

lemma frame_slots:
  assumes "vector_inv h v" and "\<forall>b<next_addr h. blocks h' b = blocks h b"
  shows "slots h' (vdata v) = slots h (vdata v)"
  using assms by (auto simp: vector_inv_def slots_def split: option.splits)

lemma frame_elems:
  assumes "vector_inv h v" and "\<forall>b<next_addr h. blocks h' b = blocks h b"
  shows "elems h' v = elems h v"
  using frame_slots [OF assms] by (simp add: elems_def)

lemma frame_inv:
  assumes "vector_inv h v" and "\<forall>b<next_addr h. blocks h' b = blocks h b"
    and "next_addr h \<le> next_addr h'"
  shows "vector_inv h' v"
  using assms by (auto simp: vector_inv_def split: option.splits)

text \<open>
  C2. When \<^verbatim>\<open>EmplaceBack\<close> must reallocate (size equal to capacity) and the constructor of
  the new element throws, the call throws and leaves the vector object (buffer, capacity and
  size), the slots of its block, its element values and every block that existed before
  as they were. When the allocation succeeds (and \<open>2 * size\<close> fits \<^verbatim>\<open>size_t\<close>), the
  events of the call are the allocation of the new block, the constructor call and the
  release of the new block: no existing element is moved, copied or destroyed, because the
  new element is built in the new block first.
\<close>

theorem EmplaceBack_throwing_ctor:
  assumes inv: "vector_inv h v" and full: "vsize v = Capacity v"
    and throws: "snd (construct T c) = None"
  shows "\<exists>e h'. EmplaceBack T c v h = Thrown e (v, h')
           \<and> slots h' (vdata v) = slots h (vdata v)
           \<and> elems h' v = elems h v
           \<and> vector_inv h' v
           \<and> (\<forall>b<next_addr h. blocks h' b = blocks h b)
           \<and> (\<not> new_fails h (max 1 (vsize v * 2)) \<and> vsize v < 2 ^ 63 \<longrightarrow>
                e = ElementOperationError
                \<and> trace h' = trace h @ [New (next_addr h) (max 1 (vsize v * 2)),
                                         fst (construct T c), Delete (next_addr h)])"
proof -
  define n where "n = (if IsEmpty v then 1 else size_t_mul (vsize v) 2)"
  obtain ev where c: "construct T c = (ev, None)"
    using throws by (cases "construct T c") auto
  have "\<exists>e h'. EmplaceBack T c v h = Thrown e (v, h')
           \<and> (\<forall>b<next_addr h. blocks h' b = blocks h b) \<and> next_addr h \<le> next_addr h'
           \<and> (\<not> new_fails h n \<and> vsize v < n \<longrightarrow>
                e = ElementOperationError
                \<and> trace h' = trace h @ [New (next_addr h) n, ev, Delete (next_addr h)])"
    unfolding EmplaceBack_def n_def [symmetric]
    using full c
    by (auto simp: RawMemory_sized_def Allocate_def placement_new_def RawMemory_plus_def
        RawMemory_dtor_def Deallocate_def emit_def)
  then obtain e h' where r: "EmplaceBack T c v h = Thrown e (v, h')"
    and fr: "\<forall>b<next_addr h. blocks h' b = blocks h b" and nx: "next_addr h \<le> next_addr h'"
    and tr: "\<not> new_fails h n \<and> vsize v < n \<longrightarrow>
                e = ElementOperationError
                \<and> trace h' = trace h @ [New (next_addr h) n, ev, Delete (next_addr h)]"
    by blast
  have n: "vsize v < 2 ^ 63 \<Longrightarrow> n = max 1 (vsize v * 2)"
    unfolding n_def IsEmpty_def by (rule growth_eq)
  have "\<not> new_fails h (max 1 (vsize v * 2)) \<and> vsize v < 2 ^ 63 \<longrightarrow>
                e = ElementOperationError
                \<and> trace h' = trace h @ [New (next_addr h) (max 1 (vsize v * 2)),
                                         fst (construct T c), Delete (next_addr h)]"
    using tr n c by auto
  with r fr frame_slots [OF inv fr] frame_elems [OF inv fr] frame_inv [OF inv fr nx]
  show ?thesis by blast
qed

theorem EmplaceBack_throwing_ctor_witness:
  "vector_inv (heap_of [[Some ''a'', Some ''b'']]) (vector_at 0 2 2)
   \<and> vsize (vector_at 0 2 2) = Capacity (vector_at 0 2 2)
   \<and> snd (construct string_like (Args None)) = None
   \<and> (\<exists>h'. EmplaceBack string_like (Args None) (vector_at 0 2 2) (heap_of [[Some ''a'', Some ''b'']])
           = Thrown ElementOperationError (vector_at 0 2 2, h')
         \<and> elems h' (vector_at 0 2 2) = [''a'', ''b'']
         \<and> trace h' = [New 1 4, ArgsCtor, Delete 1])"
proof -
  let ?H = "heap_of [[Some ''a'', Some ''b'']]"
  let ?V = "vector_at 0 2 2"
  have h1: "vector_inv ?H ?V" by code_simp
  have h2: "vsize ?V = Capacity ?V" by code_simp
  have h3: "snd (construct string_like (Args None)) = None" by code_simp
  have el: "elems ?H ?V = [''a'', ''b'']" by code_simp
  have ev: "vsize ?V = 2" "trace ?H = []" "next_addr ?H = 1" "\<not> new_fails ?H k"
    "fst (construct string_like (Args None)) = ArgsCtor" "max 1 (2 * 2) = (4 :: nat)" for k
    by (simp_all add: vector_at_def heap_of_def construct_def)
  from EmplaceBack_throwing_ctor [OF h1 h2 h3] h1 h2 h3 ev(4) [of 4] show ?thesis
    unfolding el ev by simp blast
qed

section \<open>The growth factor\<close>

lemma uninitialized_move_n_None:
  "uninitialized_move_n T (pre @ map Some xs @ post) (length pre) (length xs) dst j
     = (None, src', dst', evs) \<Longrightarrow> \<forall>x\<in>set xs. \<not> move_ctor_throws T x"
proof (induction xs arbitrary: pre dst j src' dst' evs)
  case Nil
  then show ?case by simp
next
  case (Cons x xs)
  let ?pre = "pre @ [Some (moved_from T x)]"
  from Cons.prems have a: "\<not> length dst \<le> j" and b: "\<not> move_ctor_throws T x"
    by (auto split: if_splits)
  obtain e1 s1 d1 ev1 where r: "uninitialized_move_n T (?pre @ map Some xs @ post) (length ?pre)
      (length xs) (dst[j := Some x]) (Suc j) = (e1, s1, d1, ev1)"
    by (cases "uninitialized_move_n T (?pre @ map Some xs @ post) (length ?pre)
      (length xs) (dst[j := Some x]) (Suc j)") auto
  from Cons.prems a b r have "e1 = None" by (cases e1) auto
  with r Cons.IH [of ?pre "dst[j := Some x]" "Suc j" s1 d1 ev1]
  have "\<forall>y\<in>set xs. \<not> move_ctor_throws T y" by simp
  with b show ?case by simp
qed

lemma uninitialized_copy_n_None:
  "uninitialized_copy_n T (pre @ map Some xs @ post) (length pre) (length xs) dst j
     = (None, dst', evs) \<Longrightarrow> \<forall>x\<in>set xs. \<not> copy_ctor_throws T x"
proof (induction xs arbitrary: pre dst j dst' evs)
  case Nil
  then show ?case by simp
next
  case (Cons x xs)
  let ?pre = "pre @ [Some x]"
  from Cons.prems have a: "\<not> length dst \<le> j" and b: "\<not> copy_ctor_throws T x"
    by (auto split: if_splits)
  obtain e1 d1 ev1 where r: "uninitialized_copy_n T (?pre @ map Some xs @ post) (length ?pre)
      (length xs) (dst[j := Some x]) (Suc j) = (e1, d1, ev1)"
    by (cases "uninitialized_copy_n T (?pre @ map Some xs @ post) (length ?pre)
      (length xs) (dst[j := Some x]) (Suc j)") auto
  from Cons.prems a b r have "e1 = None" by (cases e1) auto
  with r Cons.IH [of ?pre "dst[j := Some x]" "Suc j" d1 ev1]
  have "\<forall>y\<in>set xs. \<not> copy_ctor_throws T y" by simp
  with b show ?case by simp
qed


lemma EmplaceBack_returns_only_if:
  assumes inv: "vector_inv h v" and full: "vsize v = capacity (vdata v)"
    and cap: "(if IsEmpty v then 1 else size_t_mul (vsize v) 2) = n" and lt: "vsize v < n"
    and alloc: "\<not> new_fails h n"
    and ss: "0 < size_of T" and nw: "n * size_of T < 2 ^ 64"
    and ret: "EmplaceBack T c v h = Returned r (v', h')"
  shows "snd (construct T c) \<noteq> None
     \<and> (\<forall>y\<in>set (elems h v).
           \<not> (if move_if_noexcept_or_no_copy T then move_ctor_throws T y else copy_ctor_throws T y))"
proof -
  obtain ev xo where c: "construct T c = (ev, xo)" by (cases "construct T c") auto
  have n0: "n \<noteq> 0" using lt by simp
  have xo: "xo \<noteq> None"
  proof
    assume "xo = None"
    then have "\<exists>e st. EmplaceBack T c v h = Thrown e st"
      unfolding EmplaceBack_def cap
      using full alloc c lt n0
      by (simp add: Capacity_def RawMemory_sized_fits [OF ss nw] placement_new_def RawMemory_plus_def)
    with ret show False by auto
  qed
  then obtain x where x: "xo = Some x" by (cases xo) auto
  have upd: "(replicate n None)[vsize v := Some x]
      = replicate (vsize v) None @ Some x # replicate (n - vsize v - 1) None"
    using lt by (rule replicate_update)
  have "\<forall>y\<in>set (elems h v).
           \<not> (if move_if_noexcept_or_no_copy T then move_ctor_throws T y else copy_ctor_throws T y)"
    using inv
  proof (cases rule: vector_inv_cases)
    case null
    then show ?thesis by simp
  next
    case (block a k)
    let ?xs = "elems h v"
    let ?D = "replicate (length ?xs) None @ Some x # replicate (n - length ?xs - 1) None"
    have k: "k = 0" using full block by simp
    show ?thesis
    proof (cases "move_if_noexcept_or_no_copy T")
      case True
      obtain e1 s1 d1 ev1 where l: "uninitialized_move_n T (map Some ?xs) 0 (length ?xs) ?D 0
          = (e1, s1, d1, ev1)"
        by (cases "uninitialized_move_n T (map Some ?xs) 0 (length ?xs) ?D 0") auto
      have "e1 = None"
      proof (rule ccontr)
        assume "e1 \<noteq> None"
        then obtain e where e: "e1 = Some e" by (cases e1) auto
        have "\<exists>st. EmplaceBack T c v h = Thrown e st"
          unfolding EmplaceBack_def cap
          using full alloc c x True block k l [unfolded e] upd lt n0
          by (simp add: Capacity_def RawMemory_sized_fits [OF ss nw] slots_def
              set_slots_def emit_def placement_new_def RawMemory_plus_def)
        with ret show False by auto
      qed
      with l uninitialized_move_n_None [of T "[]" ?xs "[]" ?D 0 s1 d1 ev1] True
      show ?thesis by simp
    next
      case False
      obtain e1 d1 ev1 where l: "uninitialized_copy_n T (map Some ?xs) 0 (length ?xs) ?D 0
          = (e1, d1, ev1)"
        by (cases "uninitialized_copy_n T (map Some ?xs) 0 (length ?xs) ?D 0") auto
      have "e1 = None"
      proof (rule ccontr)
        assume "e1 \<noteq> None"
        then obtain e where e: "e1 = Some e" by (cases e1) auto
        have "\<exists>st. EmplaceBack T c v h = Thrown e st"
          unfolding EmplaceBack_def cap
          using full alloc c x False block k l [unfolded e] upd lt n0
          by (simp add: Capacity_def RawMemory_sized_fits [OF ss nw] slots_def
              set_slots_def emit_def placement_new_def RawMemory_plus_def)
        with ret show False by auto
      qed
      with l uninitialized_copy_n_None [of T "[]" ?xs "[]" ?D 0 d1 ev1] False
      show ?thesis by simp
    qed
  qed
  with c x show ?thesis by simp
qed


lemma Emplace_returns_only_if:
  assumes inv: "vector_inv h v" and full: "vsize v = capacity (vdata v)"
    and cap: "(if IsEmpty v then 1 else size_t_mul (vsize v) 2) = n" and lt: "vsize v < n"
    and pos: "pos \<le> vsize v" and alloc: "\<not> new_fails h n"
    and ss: "0 < size_of T" and nw: "n * size_of T < 2 ^ 64"
    and ret: "Emplace T pos c v h = Returned r (v', h')"
  shows "snd (construct T c) \<noteq> None
     \<and> (\<forall>y\<in>set (elems h v).
           \<not> (if move_if_noexcept_or_no_copy T then move_ctor_throws T y else copy_ctor_throws T y))"
proof -
  obtain ev xo where c: "construct T c = (ev, xo)" by (cases "construct T c") auto
  have n0: "n \<noteq> 0" using lt by simp
  have plt: "pos < n" using pos lt by simp
  have xo: "xo \<noteq> None"
  proof
    assume "xo = None"
    then have "\<exists>e st. Emplace T pos c v h = Thrown e st"
      unfolding Emplace_def cap
      using full alloc c lt n0 pos plt
      by (simp add: Capacity_def RawMemory_sized_fits [OF ss nw] placement_new_def RawMemory_plus_def)
    with ret show False by auto
  qed
  then obtain x where x: "xo = Some x" by (cases xo) auto
  have upd: "(replicate n None)[pos := Some x]
      = replicate pos None @ Some x # replicate (n - pos - 1) None"
    using plt by (rule replicate_update)
  have "\<forall>y\<in>set (elems h v).
           \<not> (if move_if_noexcept_or_no_copy T then move_ctor_throws T y else copy_ctor_throws T y)"
    using inv
  proof (cases rule: vector_inv_cases)
    case null
    then show ?thesis by simp
  next
    case (block a k)
    let ?xs = "elems h v"
    let ?R = "replicate (n - pos - 1) (None :: 'a option)"
    let ?D = "replicate pos None @ Some x # ?R"
    have k: "k = 0" using full block by simp
    have split: "map Some ?xs = map Some (take pos ?xs) @ map Some (drop pos ?xs)"
      by (simp flip: map_append)
    have lp: "length (take pos ?xs) = pos" "length (drop pos ?xs) = vsize v - pos"
      using pos block(4) by simp_all
    have R: "?R = replicate (vsize v - pos) None @ replicate (n - vsize v - 1) None"
      using pos lt by (simp flip: replicate_add)
    have all: "\<forall>y\<in>set ?xs. P y" if "\<forall>y\<in>set (take pos ?xs). P y" "\<forall>y\<in>set (drop pos ?xs). P y" for P
    proof -
      have "set ?xs = set (take pos ?xs) \<union> set (drop pos ?xs)"
        by (metis append_take_drop_id set_append)
      with that show ?thesis by auto
    qed
    show ?thesis
    proof (cases "move_if_noexcept_or_no_copy T")
      case True
      obtain e1 s1 d1 ev1 where l1: "uninitialized_move_n T (map Some ?xs) 0 pos ?D 0
          = (e1, s1, d1, ev1)"
        by (cases "uninitialized_move_n T (map Some ?xs) 0 pos ?D 0") auto
      have e1: "e1 = None"
      proof (rule ccontr)
        assume "e1 \<noteq> None"
        then obtain e where e: "e1 = Some e" by (cases e1) auto
        have "\<exists>st. Emplace T pos c v h = Thrown e st"
          unfolding Emplace_def cap
          using full alloc c x True block k l1 [unfolded e] upd lt n0 pos plt
          by (simp add: Capacity_def RawMemory_sized_fits [OF ss nw] slots_def
              set_slots_def emit_def placement_new_def RawMemory_plus_def)
        with ret show False by auto
      qed
      have nt1: "\<forall>y\<in>set (take pos ?xs). \<not> move_ctor_throws T y"
        using uninitialized_move_n_None [of T "[]" "take pos ?xs" "map Some (drop pos ?xs)" ?D 0
            s1 d1 ev1] l1 e1 lp split
        by simp
      have ok1: "uninitialized_move_n T (map Some ?xs) 0 pos ?D 0
          = (None, map (\<lambda>x. Some (moved_from T x)) (take pos ?xs) @ map Some (drop pos ?xs),
             map Some (take pos ?xs) @ Some x # ?R, replicate pos MoveCtor)"
        using uninitialized_move_n_ok [OF nt1, where mid = "replicate pos None" and pre = "[]"
            and post = "map Some (drop pos ?xs)" and dpre = "[]" and dpost = "Some x # ?R"] lp split
        by simp
      let ?S = "map (\<lambda>x. Some (moved_from T x)) (take pos ?xs) @ map Some (drop pos ?xs)"
      let ?E = "map Some (take pos ?xs) @ Some x # ?R"
      obtain e2 s2 d2 ev2 where l2: "uninitialized_move_n T ?S pos (vsize v - pos) ?E (Suc pos)
          = (e2, s2, d2, ev2)"
        by (cases "uninitialized_move_n T ?S pos (vsize v - pos) ?E (Suc pos)") auto
      have e2: "e2 = None"
      proof (rule ccontr)
        assume "e2 \<noteq> None"
        then obtain e where e: "e2 = Some e" by (cases e2) auto
        have "\<exists>st. Emplace T pos c v h = Thrown e st"
          unfolding Emplace_def cap
          using full alloc c x True block k ok1 l2 [unfolded e] upd lt n0 pos plt
          by (simp add: Capacity_def RawMemory_sized_fits [OF ss nw] slots_def
              set_slots_def emit_def placement_new_def RawMemory_plus_def)
        with ret show False by auto
      qed
      have nt2: "\<forall>y\<in>set (drop pos ?xs). \<not> move_ctor_throws T y"
        using uninitialized_move_n_None [of T "map (\<lambda>x. Some (moved_from T x)) (take pos ?xs)"
            "drop pos ?xs" "[]" ?E "Suc pos" s2 d2 ev2] l2 e2 lp
        by simp
      from all [of "\<lambda>y. \<not> move_ctor_throws T y", OF nt1 nt2] True show ?thesis by simp
    next
      case False
      obtain e1 d1 ev1 where l1: "uninitialized_copy_n T (map Some ?xs) 0 pos ?D 0
          = (e1, d1, ev1)"
        by (cases "uninitialized_copy_n T (map Some ?xs) 0 pos ?D 0") auto
      have e1: "e1 = None"
      proof (rule ccontr)
        assume "e1 \<noteq> None"
        then obtain e where e: "e1 = Some e" by (cases e1) auto
        have "\<exists>st. Emplace T pos c v h = Thrown e st"
          unfolding Emplace_def cap
          using full alloc c x False block k l1 [unfolded e] upd lt n0 pos plt
          by (simp add: Capacity_def RawMemory_sized_fits [OF ss nw] slots_def
              set_slots_def emit_def placement_new_def RawMemory_plus_def)
        with ret show False by auto
      qed
      have nt1: "\<forall>y\<in>set (take pos ?xs). \<not> copy_ctor_throws T y"
        using uninitialized_copy_n_None [of T "[]" "take pos ?xs" "map Some (drop pos ?xs)" ?D 0
            d1 ev1] l1 e1 lp split
        by simp
      have ok1: "uninitialized_copy_n T (map Some ?xs) 0 pos ?D 0
          = (None, map Some (take pos ?xs) @ Some x # ?R, replicate pos CopyCtor)"
        using uninitialized_copy_n_ok [OF nt1, where mid = "replicate pos None" and pre = "[]"
            and post = "map Some (drop pos ?xs)" and dpre = "[]" and dpost = "Some x # ?R"] lp split
        by simp
      let ?E = "map Some (take pos ?xs) @ Some x # ?R"
      obtain e2 d2 ev2 where l2: "uninitialized_copy_n T (map Some ?xs) pos (vsize v - pos) ?E (Suc pos)
          = (e2, d2, ev2)"
        by (cases "uninitialized_copy_n T (map Some ?xs) pos (vsize v - pos) ?E (Suc pos)") auto
      have e2: "e2 = None"
      proof (rule ccontr)
        assume "e2 \<noteq> None"
        then obtain e where e: "e2 = Some e" by (cases e2) auto
        have "\<exists>st. Emplace T pos c v h = Thrown e st"
          unfolding Emplace_def cap
          using full alloc c x False block k ok1 l2 [unfolded e] upd lt n0 pos plt
          by (simp add: Capacity_def RawMemory_sized_fits [OF ss nw] slots_def
              set_slots_def emit_def placement_new_def RawMemory_plus_def)
        with ret show False by auto
      qed
      have nt2: "\<forall>y\<in>set (drop pos ?xs). \<not> copy_ctor_throws T y"
        using uninitialized_copy_n_None [of T "map Some (take pos ?xs)"
            "drop pos ?xs" "[]" ?E "Suc pos" d2 ev2] l2 e2 lp split
        by simp
      from all [of "\<lambda>y. \<not> copy_ctor_throws T y", OF nt1 nt2] False show ?thesis by simp
    qed
  qed
  with c x show ?thesis by simp
qed

lemma trace_emit: "trace (emit evs h) = trace h @ evs"
  by (simp add: emit_def)

lemma trace_set_slots: "trace (set_slots m s h) = trace h"
  by (simp add: set_slots_def split: option.split)

lemma trace_RawMemory_dtor:
  "trace (RawMemory_dtor m h) = trace h @ (case buffer m of None \<Rightarrow> [] | Some a \<Rightarrow> [Delete a])"
  by (simp add: RawMemory_dtor_def Deallocate_def split: option.split)

lemma destroy_and_swap_result:
  "fst (destroy_and_swap v nd h) = v\<lparr>vdata := nd\<rparr>"
  "trace (snd (destroy_and_swap v nd h))
     = trace h @ replicate (vsize v) Dtor @ (case buffer (vdata v) of None \<Rightarrow> [] | Some a \<Rightarrow> [Delete a])"
  by (simp_all add: destroy_and_swap_def RawMemory_Swap_eq trace_RawMemory_dtor trace_emit trace_set_slots)

lemma trace_placement_new:
  "trace (snd (placement_new T m i c h))
     = trace h @ (case RawMemory_plus m i of Inl _ \<Rightarrow> [] | Inr _ \<Rightarrow> [fst (construct T c)])"
  by (simp add: placement_new_def trace_emit trace_set_slots split: sum.split prod.split option.split)

lemma trace_RawMemory_sized:
  "RawMemory_sized T n h = Inr (m, h1) \<Longrightarrow> n \<noteq> 0 \<Longrightarrow>
     trace h1 = trace h @ [New (next_addr h) n] \<and> m = \<lparr>buffer = Some (next_addr h), capacity = n\<rparr>"
  by (auto simp: RawMemory_sized_def Allocate_def split: if_splits)

lemma EmplaceBack_allocates:
  assumes full: "vsize v = Capacity v"
    and cap: "(if IsEmpty v then 1 else size_t_mul (vsize v) 2) = n"
    and n0: "n \<noteq> 0" and alloc: "\<not> new_fails h n"
  shows "\<exists>rest. trace (snd (state_of (EmplaceBack T c v h))) = trace h @ New (next_addr h) n # rest"
proof -
  obtain m h1 where a: "RawMemory_sized T n h = Inr (m, h1)"
    using n0 alloc by (simp add: RawMemory_sized_def Allocate_def)
  note t1 = trace_RawMemory_sized [OF a n0]
  show ?thesis
    unfolding EmplaceBack_def cap
    using full t1
    by (simp add: a state_of_def split_beta trace_emit trace_set_slots trace_RawMemory_dtor
        destroy_and_swap_result trace_placement_new
        split: option.split error.split)
qed

lemma Emplace_allocates:
  assumes full: "vsize v = Capacity v"
    and cap: "(if IsEmpty v then 1 else size_t_mul (vsize v) 2) = n"
    and n0: "n \<noteq> 0" and alloc: "\<not> new_fails h n" and pos: "pos \<le> vsize v"
  shows "\<exists>rest. trace (snd (state_of (Emplace T pos c v h))) = trace h @ New (next_addr h) n # rest"
proof -
  obtain m h1 where a: "RawMemory_sized T n h = Inr (m, h1)"
    using n0 alloc by (simp add: RawMemory_sized_def Allocate_def)
  note t1 = trace_RawMemory_sized [OF a n0]
  show ?thesis
    unfolding Emplace_def cap
    using full t1 pos
    by (simp add: a state_of_def split_beta trace_emit trace_set_slots trace_RawMemory_dtor
        destroy_and_swap_result trace_placement_new
        split: option.split error.split)
qed

lemma next_addr_emit: "next_addr (emit evs h) = next_addr h"
  by (simp add: emit_def)

lemma next_addr_set_slots: "next_addr (set_slots m s h) = next_addr h"
  by (simp add: set_slots_def split: option.split)

lemma next_addr_RawMemory_dtor: "next_addr (RawMemory_dtor m h) = next_addr h"
  by (simp add: RawMemory_dtor_def Deallocate_def split: option.split)

lemma next_addr_destroy_and_swap: "next_addr (snd (destroy_and_swap v nd h)) = next_addr h"
  by (simp add: destroy_and_swap_def RawMemory_Swap_eq next_addr_RawMemory_dtor next_addr_emit
      next_addr_set_slots)

lemma next_addr_placement_new: "next_addr (snd (placement_new T m i c h)) = next_addr h"
  by (simp add: placement_new_def next_addr_emit next_addr_set_slots
      split: sum.split prod.split option.split)

lemma next_addr_RawMemory_sized:
  "RawMemory_sized T n h = Inr (m, h1) \<Longrightarrow> n \<noteq> 0 \<Longrightarrow> next_addr h1 = Suc (next_addr h)"
  by (auto simp: RawMemory_sized_def Allocate_def split: if_splits)

lemma EmplaceBack_fresh_address:
  assumes full: "vsize v = Capacity v"
    and cap: "(if IsEmpty v then 1 else size_t_mul (vsize v) 2) = n"
    and n0: "n \<noteq> 0" and alloc: "\<not> new_fails h n"
  shows "next_addr (snd (state_of (EmplaceBack T c v h))) = Suc (next_addr h)"
proof -
  obtain m h1 where a: "RawMemory_sized T n h = Inr (m, h1)"
    using n0 alloc by (simp add: RawMemory_sized_def Allocate_def)
  note t1 = next_addr_RawMemory_sized [OF a n0]
  show ?thesis
    unfolding EmplaceBack_def cap
    using full t1
    by (simp add: a state_of_def split_beta next_addr_emit next_addr_set_slots
        next_addr_RawMemory_dtor next_addr_destroy_and_swap next_addr_placement_new
        split: option.split error.split)
qed

lemma Emplace_fresh_address:
  assumes full: "vsize v = Capacity v"
    and cap: "(if IsEmpty v then 1 else size_t_mul (vsize v) 2) = n"
    and n0: "n \<noteq> 0" and alloc: "\<not> new_fails h n" and pos: "pos \<le> vsize v"
  shows "next_addr (snd (state_of (Emplace T pos c v h))) = Suc (next_addr h)"
proof -
  obtain m h1 where a: "RawMemory_sized T n h = Inr (m, h1)"
    using n0 alloc by (simp add: RawMemory_sized_def Allocate_def)
  note t1 = next_addr_RawMemory_sized [OF a n0]
  show ?thesis
    unfolding Emplace_def cap
    using full t1 pos
    by (simp add: a state_of_def split_beta next_addr_emit next_addr_set_slots
        next_addr_RawMemory_dtor next_addr_destroy_and_swap next_addr_placement_new
        split: option.split error.split)
qed

lemma EmplaceBack_returned_block:
  assumes inv: "vector_inv h v" and full: "vsize v = capacity (vdata v)"
    and cap: "(if IsEmpty v then 1 else size_t_mul (vsize v) 2) = n" and lt: "vsize v < n"
    and alloc: "\<not> new_fails h n"
    and ss: "0 < size_of T" and nw: "n * size_of T < 2 ^ 64"
    and ret: "EmplaceBack T c v h = Returned r (v', h')"
  shows "Capacity v' = n \<and> Size v' = Size v + 1
     \<and> buffer (vdata v') = Some (next_addr h) \<and> buffer (vdata v') \<noteq> buffer (vdata v)
     \<and> (\<exists>s. blocks h' (next_addr h) = Some s \<and> length s = n)
     \<and> next_addr h' = Suc (next_addr h) \<and> vector_inv h' v'"
proof -
  note only = EmplaceBack_returns_only_if [OF inv full cap lt alloc ss nw ret]
  then obtain ev x where c: "construct T c = (ev, Some x)"
    by (cases "construct T c") auto
  from only have nt: "\<forall>y\<in>set (elems h v).
      \<not> (if move_if_noexcept_or_no_copy T then move_ctor_throws T y else copy_ctor_throws T y)"
    by blast
  let ?w = "\<lparr>vdata = \<lparr>buffer = Some (next_addr h), capacity = n\<rparr>, vsize = vsize v + 1\<rparr>"
  from EmplaceBack_grows_to [OF inv full cap lt alloc c nt ss nw]
  obtain g where r: "EmplaceBack T c v h = Returned (Some (next_addr h), vsize v) (?w, g)"
    and b: "blocks g (next_addr h)
         = Some (map Some (elems h v @ [x]) @ replicate (n - vsize v - 1) None)"
    and nx: "next_addr g = Suc (next_addr h)"
    by blast
  from r ret have v': "v' = ?w" and h': "h' = g" by simp_all
  have len: "length (elems h v) = vsize v" using inv by (rule vector_inv_length)
  have p2: "next_addr h < next_addr g" using nx by simp
  have p4: "vsize ?w = length (elems h v @ [x])" using len by simp
  have p5: "capacity (vdata ?w) = length (elems h v @ [x]) + (n - vsize v - 1)"
    using len lt by simp
  have iv: "vector_inv g ?w" using vector_inv_block(1) [OF _ p2 b p4 p5] by simp
  have old: "buffer (vdata v) \<noteq> Some (next_addr h)"
    using inv by (auto simp: vector_inv_def)
  have "length (map Some (elems h v @ [x]) @ replicate (n - vsize v - 1) None) = n"
    using len lt by simp
  with b have "\<exists>s. blocks g (next_addr h) = Some s \<and> length s = n" by blast
  with iv nx old show ?thesis
    unfolding v' h' by (simp add: Capacity_def Size_def)
qed

lemma Emplace_returned_block:
  assumes inv: "vector_inv h v" and full: "vsize v = capacity (vdata v)"
    and cap: "(if IsEmpty v then 1 else size_t_mul (vsize v) 2) = n" and lt: "vsize v < n"
    and pos: "pos \<le> vsize v" and alloc: "\<not> new_fails h n"
    and ss: "0 < size_of T" and nw: "n * size_of T < 2 ^ 64"
    and ret: "Emplace T pos c v h = Returned r (v', h')"
  shows "Capacity v' = n \<and> Size v' = Size v + 1
     \<and> buffer (vdata v') = Some (next_addr h) \<and> buffer (vdata v') \<noteq> buffer (vdata v)
     \<and> (\<exists>s. blocks h' (next_addr h) = Some s \<and> length s = n)
     \<and> next_addr h' = Suc (next_addr h) \<and> vector_inv h' v'"
proof -
  note only = Emplace_returns_only_if [OF inv full cap lt pos alloc ss nw ret]
  then obtain ev x where c: "construct T c = (ev, Some x)"
    by (cases "construct T c") auto
  from only have nt: "\<forall>y\<in>set (elems h v).
      \<not> (if move_if_noexcept_or_no_copy T then move_ctor_throws T y else copy_ctor_throws T y)"
    by blast
  let ?w = "\<lparr>vdata = \<lparr>buffer = Some (next_addr h), capacity = n\<rparr>, vsize = vsize v + 1\<rparr>"
  let ?ys = "take pos (elems h v) @ x # drop pos (elems h v)"
  from Emplace_grows_to [OF inv full cap lt pos alloc c nt ss nw]
  obtain g where r: "Emplace T pos c v h = Returned (Some (next_addr h), pos) (?w, g)"
    and b: "blocks g (next_addr h) = Some (map Some ?ys @ replicate (n - vsize v - 1) None)"
    and nx: "next_addr g = Suc (next_addr h)"
    by blast
  from r ret have v': "v' = ?w" and h': "h' = g" by simp_all
  have len: "length (elems h v) = vsize v" using inv by (rule vector_inv_length)
  have ly: "length ?ys = vsize v + 1" using pos len by simp
  have p2: "next_addr h < next_addr g" using nx by simp
  have p4: "vsize ?w = length ?ys" unfolding ly by simp
  have p5: "capacity (vdata ?w) = length ?ys + (n - vsize v - 1)"
    unfolding ly using lt by simp
  have iv: "vector_inv g ?w" using vector_inv_block(1) [OF _ p2 b p4 p5] by simp
  have old: "buffer (vdata v) \<noteq> Some (next_addr h)"
    using inv by (auto simp: vector_inv_def)
  have "length (map Some ?ys @ replicate (n - vsize v - 1) None)
        = length ?ys + (n - vsize v - 1)"
    by (simp only: length_append length_map length_replicate)
  also have "\<dots> = n" unfolding ly using lt by simp
  finally have "length (map Some ?ys @ replicate (n - vsize v - 1) None) = n" .
  with b have "\<exists>s. blocks g (next_addr h) = Some s \<and> length s = n" by blast
  with iv nx old show ?thesis
    unfolding v' h' by (simp add: Capacity_def Size_def)
qed


text \<open>
  C7. \<^verbatim>\<open>EmplaceBack\<close> or \<^verbatim>\<open>Emplace\<close> is called on a vector that satisfies the invariant,
  with size equal to capacity (and \<open>pos\<close> within the vector). The code computes the new
  capacity as \<^verbatim>\<open>IsEmpty() ? 1 : size_ * 2\<close> and the byte count as that capacity times
  \<^verbatim>\<open>sizeof(T)\<close>, both in \<^verbatim>\<open>size_t\<close>; the hypotheses say that \<open>max 1 (size * 2)\<close> elements fit
  in \<^verbatim>\<open>size_t\<close> bytes and that the allocator does not fail. Then

  \<^item> whatever happens afterwards (return or throw), the first thing the call does is to
    request a block for exactly \<open>max 1 (size * 2)\<close> elements, and the heap hands out its
    next fresh address for it, once;
  \<^item> whenever the call returns, the vector owns that new block, which is not its old one
    and has exactly \<open>max 1 (size * 2)\<close> slots; its capacity is \<open>max 1 (size * 2)\<close>, its size
    has grown by one and it satisfies the invariant in the new heap;
  \<^item> the call does return when the constructor of the new element succeeds and no transfer
    of an existing element throws.

  \<^verbatim>\<open>PushBack\<close> and \<^verbatim>\<open>Insert\<close> are these two functions with a copy or a move as the
  constructor call.
\<close>

theorem growth_factor:
  assumes inv: "vector_inv h v" and full: "vsize v = Capacity v"
    and ss: "0 < size_of T" and nw: "max 1 (vsize v * 2) * size_of T < 2 ^ 64"
    and alloc: "\<not> new_fails h (max 1 (vsize v * 2))"
  shows "(\<exists>rest. trace (snd (state_of (EmplaceBack T c v h)))
                  = trace h @ New (next_addr h) (max 1 (vsize v * 2)) # rest)
       \<and> next_addr (snd (state_of (EmplaceBack T c v h))) = Suc (next_addr h)
       \<and> (\<forall>r v' h'. EmplaceBack T c v h = Returned r (v', h') \<longrightarrow>
             Capacity v' = max 1 (vsize v * 2) \<and> Size v' = Size v + 1
             \<and> buffer (vdata v') = Some (next_addr h) \<and> buffer (vdata v') \<noteq> buffer (vdata v)
             \<and> (\<exists>s. blocks h' (next_addr h) = Some s \<and> length s = max 1 (vsize v * 2))
             \<and> next_addr h' = Suc (next_addr h) \<and> vector_inv h' v')
       \<and> (snd (construct T c) \<noteq> None
            \<and> (\<forall>y\<in>set (elems h v).
                  \<not> (if is_nothrow_move_constructible T \<or> \<not> is_copy_constructible T
                     then move_ctor_throws T y else copy_ctor_throws T y)) \<longrightarrow>
             returned (EmplaceBack T c v h))
       \<and> (pos \<le> vsize v \<longrightarrow>
            (\<exists>rest. trace (snd (state_of (Emplace T pos c v h)))
                  = trace h @ New (next_addr h) (max 1 (vsize v * 2)) # rest)
            \<and> next_addr (snd (state_of (Emplace T pos c v h))) = Suc (next_addr h)
            \<and> (\<forall>r v' h'. Emplace T pos c v h = Returned r (v', h') \<longrightarrow>
                  Capacity v' = max 1 (vsize v * 2) \<and> Size v' = Size v + 1
                  \<and> buffer (vdata v') = Some (next_addr h) \<and> buffer (vdata v') \<noteq> buffer (vdata v)
                  \<and> (\<exists>s. blocks h' (next_addr h) = Some s \<and> length s = max 1 (vsize v * 2))
                  \<and> next_addr h' = Suc (next_addr h) \<and> vector_inv h' v')
            \<and> (snd (construct T c) \<noteq> None
                 \<and> (\<forall>y\<in>set (elems h v).
                       \<not> (if is_nothrow_move_constructible T \<or> \<not> is_copy_constructible T
                          then move_ctor_throws T y else copy_ctor_throws T y)) \<longrightarrow>
                  returned (Emplace T pos c v h)))"
proof -
  let ?n = "max 1 (vsize v * 2)"
  have bound: "vsize v < 2 ^ 63" using nw ss by (rule fits_bound)
  have cap: "(if IsEmpty v then 1 else size_t_mul (vsize v) 2) = ?n"
    using growth_eq [OF bound] by (simp add: IsEmpty_def)
  have n0: "?n \<noteq> 0" by simp
  have lt: "vsize v < ?n" by simp
  have full': "vsize v = capacity (vdata v)" using full by (simp add: Capacity_def)
  have retb: "returned (EmplaceBack T c v h)"
    if "snd (construct T c) \<noteq> None
        \<and> (\<forall>y\<in>set (elems h v).
              \<not> (if is_nothrow_move_constructible T \<or> \<not> is_copy_constructible T
                 then move_ctor_throws T y else copy_ctor_throws T y))"
  proof -
    from that obtain ev x where c: "construct T c = (ev, Some x)"
      by (cases "construct T c") auto
    from that have nt: "\<forall>y\<in>set (elems h v).
        \<not> (if move_if_noexcept_or_no_copy T then move_ctor_throws T y else copy_ctor_throws T y)"
      by (simp add: move_if_noexcept_or_no_copy_def)
    from EmplaceBack_grows_to [OF inv full' cap lt alloc c nt ss nw]
    show ?thesis by (auto simp: returned_def)
  qed
  have rete: "returned (Emplace T pos c v h)"
    if pos: "pos \<le> vsize v" and "snd (construct T c) \<noteq> None
        \<and> (\<forall>y\<in>set (elems h v).
              \<not> (if is_nothrow_move_constructible T \<or> \<not> is_copy_constructible T
                 then move_ctor_throws T y else copy_ctor_throws T y))"
  proof -
    from that obtain ev x where c: "construct T c = (ev, Some x)"
      by (cases "construct T c") auto
    from that have nt: "\<forall>y\<in>set (elems h v).
        \<not> (if move_if_noexcept_or_no_copy T then move_ctor_throws T y else copy_ctor_throws T y)"
      by (simp add: move_if_noexcept_or_no_copy_def)
    from Emplace_grows_to [OF inv full' cap lt pos alloc c nt ss nw]
    show ?thesis by (auto simp: returned_def)
  qed
  show ?thesis
    using EmplaceBack_allocates [OF full cap n0 alloc, of T c]
      EmplaceBack_returned_block [OF inv full' cap lt alloc ss nw, of c]
      Emplace_allocates [OF full cap n0 alloc, of pos T c]
      Emplace_returned_block [OF inv full' cap lt _ alloc ss nw, of pos c]
      EmplaceBack_fresh_address [OF full cap n0 alloc, of T c]
      Emplace_fresh_address [OF full cap n0 alloc, of pos T c]
      retb rete
    by blast
qed

theorem growth_factor_witness:
  "vector_inv (heap_of [[Some 1, Some 2, Some (3 :: int)]]) (vector_at 0 3 3)
   \<and> vsize (vector_at 0 3 3) = Capacity (vector_at 0 3 3)
   \<and> returned (EmplaceBack arithmetic (Args (Some 4)) (vector_at 0 3 3)
                 (heap_of [[Some 1, Some 2, Some 3]]))
   \<and> Capacity (fst (state_of (EmplaceBack arithmetic (Args (Some 4)) (vector_at 0 3 3)
                                 (heap_of [[Some 1, Some 2, Some 3]])))) = 6
   \<and> (\<exists>s. blocks (snd (state_of (EmplaceBack arithmetic (Args (Some 4)) (vector_at 0 3 3)
                                    (heap_of [[Some 1, Some 2, Some 3]])))) 1 = Some s
          \<and> length s = 6)
   \<and> returned (Emplace arithmetic 0 (Args (Some 4)) Vector_default (heap_of []))
   \<and> Capacity (fst (state_of (Emplace arithmetic 0 (Args (Some 4)) Vector_default (heap_of [])))) = 1"
proof -
  let ?H = "heap_of [[Some 1, Some 2, Some (3 :: int)]]"
  let ?V = "vector_at 0 3 3"
  let ?E = "EmplaceBack arithmetic (Args (Some 4)) ?V ?H"
  let ?G = "heap_of [] :: int heap"
  let ?D = "Emplace arithmetic 0 (Args (Some 4)) Vector_default ?G"
  have pre: "snd (construct arithmetic (Args (Some 4))) \<noteq> None
      \<and> (\<forall>y\<in>set xs. \<not> (if is_nothrow_move_constructible arithmetic
                               \<or> \<not> is_copy_constructible arithmetic
                            then move_ctor_throws arithmetic y else copy_ctor_throws arithmetic y))"
    for xs
    by (simp add: construct_def arithmetic_def)
  have ss: "0 < size_of arithmetic" by (simp add: arithmetic_def)
  have inv: "vector_inv ?H ?V" by code_simp
  have full: "vsize ?V = Capacity ?V" by (simp add: vector_at_def Capacity_def)
  have nw: "max 1 (vsize ?V * 2) * size_of arithmetic < 2 ^ 64"
    by (simp add: vector_at_def arithmetic_def)
  have alloc: "\<not> new_fails ?H (max 1 (vsize ?V * 2))" by (simp add: heap_of_def)
  note g = growth_factor [OF inv full ss nw alloc, of "Args (Some 4)" 0]
  from g pre have ret: "returned ?E" by blast
  then obtain r v' h' where E: "?E = Returned r (v', h')"
    by (cases ?E) (auto simp: returned_def)
  from g E have "Capacity v' = max 1 (vsize ?V * 2)
      \<and> (\<exists>s. blocks h' (next_addr ?H) = Some s \<and> length s = max 1 (vsize ?V * 2))"
    by blast
  then have "Capacity v' = 6 \<and> (\<exists>s. blocks h' 1 = Some s \<and> length s = 6)"
    by (simp add: vector_at_def heap_of_def)
  then have c: "Capacity (fst (state_of ?E)) = 6"
    and b: "\<exists>s. blocks (snd (state_of ?E)) 1 = Some s \<and> length s = 6"
    unfolding E by (simp_all add: state_of_def)
  have inv0: "vector_inv ?G Vector_default" by code_simp
  have full0: "vsize Vector_default = Capacity Vector_default"
    by (simp add: Vector_default_def RawMemory_default_def Capacity_def)
  have nw0: "max 1 (vsize Vector_default * 2) * size_of arithmetic < 2 ^ 64"
    by (simp add: Vector_default_def arithmetic_def)
  have alloc0: "\<not> new_fails ?G (max 1 (vsize Vector_default * 2))" by (simp add: heap_of_def)
  note g0 = growth_factor [OF inv0 full0 ss nw0 alloc0, of "Args (Some 4)" 0]
  from g0 pre have ret0: "returned ?D" by simp
  then obtain r0 v0 h0 where D: "?D = Returned r0 (v0, h0)"
    by (cases ?D) (auto simp: returned_def)
  from g0 D have "Capacity v0 = max 1 (vsize Vector_default * 2)" by blast
  then have "Capacity v0 = 1" by (simp add: Vector_default_def)
  then have c0: "Capacity (fst (state_of ?D)) = 1"
    unfolding D by (simp add: state_of_def)
  from inv full ret c b ret0 c0 show ?thesis by blast
qed

section \<open>Value initialisation\<close>





text \<open>
  A size whose byte count does not fit \<^verbatim>\<open>size_t\<close> is outside these hypotheses: for
  four-byte elements \<^verbatim>\<open>Vector(2^62 + 1)\<close> asks \<^verbatim>\<open>operator new\<close> for four bytes, the block has
  one slot, and the construction of the second element leaves the block.
\<close>

lemma Vector_sized_wrapping_request:
  "Vector_sized arithmetic (2 ^ 62 + 1) (heap_of [])
     = Thrown UndefinedBehaviour
         ((heap_of [])
            \<lparr>blocks := (blocks (heap_of []))(0 := None),
              next_addr := 1,
              trace := [New 0 (2 ^ 62 + 1), ValueCtor, Dtor, Delete 0]\<rparr>)"
proof -
  have sz: "size_t_mul (2 ^ 62 + 1) (size_of arithmetic) div size_of arithmetic = 1"
    by (simp add: size_t_mul_def arithmetic_def)
  have two: "(2 :: nat) ^ 62 + 1 = Suc (Suc (2 ^ 62 - 1))" by simp
  have step: "uninitialized_value_construct_n arithmetic [None] 0 (Suc (Suc k))
      = (Some UndefinedBehaviour, [None], [ValueCtor, Dtor])" for k
    by (simp add: arithmetic_def)
  have loop: "uninitialized_value_construct_n arithmetic [None] 0 (2 ^ 62 + 1)
      = (Some UndefinedBehaviour, [None], [ValueCtor, Dtor])"
    unfolding two by (rule step)
  show ?thesis
    using sz loop
    by (simp add: Vector_sized_def RawMemory_sized_def Allocate_def heap_of_def
        slots_def set_slots_def emit_def RawMemory_dtor_def Deallocate_def)
qed

section \<open>Insertion without reallocation\<close>

text \<open>
  C3. The claim: after an insert at \<open>pos\<close> the new value is at \<open>pos\<close> and every element
  that was at an index in \<open>[pos, size)\<close> is one slot further, with its value. When the
  capacity suffices the code moves the last element into the slot past the end and then
  calls \<^verbatim>\<open>std::move_backward(begin()+shift, end(), end()+1)\<close>, whose first step move-assigns
  that same slot again, from the last element, which is by then moved-from. For an element
  type like \<^verbatim>\<open>std::string\<close> (a move empties its source) the vector \<open>[a, b, c]\<close> with capacity
  four becomes \<open>[a, x, b, ""]\<close> after inserting \<open>x\<close> at index one, not \<open>[a, x, b, c]\<close>, and
  \<open>[a, b, "", x]\<close> after inserting \<open>x\<close> at the end, not \<open>[a, b, c, x]\<close>.
\<close>

theorem Insert_in_place_loses_moved_element:
  "vector_inv (heap_of [[Some ''a'', Some ''b'', Some ''c'', None]]) (vector_at 0 4 3)
   \<and> elems (heap_of [[Some ''a'', Some ''b'', Some ''c'', None]]) (vector_at 0 4 3)
       = [''a'', ''b'', ''c'']
   \<and> returned (Insert_copy string_like 1 ''x'' (vector_at 0 4 3)
                 (heap_of [[Some ''a'', Some ''b'', Some ''c'', None]]))
   \<and> elems (snd (state_of (Insert_copy string_like 1 ''x'' (vector_at 0 4 3)
                              (heap_of [[Some ''a'', Some ''b'', Some ''c'', None]]))))
        (fst (state_of (Insert_copy string_like 1 ''x'' (vector_at 0 4 3)
                          (heap_of [[Some ''a'', Some ''b'', Some ''c'', None]]))))
       = [''a'', ''x'', ''b'', []]
   \<and> returned (Insert_copy string_like 3 ''x'' (vector_at 0 4 3)
                 (heap_of [[Some ''a'', Some ''b'', Some ''c'', None]]))
   \<and> elems (snd (state_of (Insert_copy string_like 3 ''x'' (vector_at 0 4 3)
                              (heap_of [[Some ''a'', Some ''b'', Some ''c'', None]]))))
        (fst (state_of (Insert_copy string_like 3 ''x'' (vector_at 0 4 3)
                          (heap_of [[Some ''a'', Some ''b'', Some ''c'', None]]))))
       = [''a'', ''b'', [], ''x'']"
  by code_simp

section \<open>The invariant after a failed insertion\<close>

text \<open>
  C8. The claim: every public operation keeps the invariant (size at most capacity, the
  slots below the size live, the slots from the size on raw). \<^verbatim>\<open>Emplace\<close> without
  reallocation destroys the element at \<open>pos\<close> before it constructs the new one there; when
  that constructor throws, the call leaves the size as it was with the slot at \<open>pos\<close> raw
  and the slot past the end live. From the vector \<open>[1, 2, 3]\<close> with capacity four, an
  insert at index zero of a value whose copy constructor throws leaves the slots
  \<open>[raw, 1, 2, 3]\<close> and size three, and the invariant no longer holds.
\<close>

theorem Emplace_in_place_throw_breaks_invariant:
  "vector_inv (heap_of [[Some 1, Some 2, Some 3, None]]) (vector_at 0 4 3)
   \<and> \<not> returned (Insert_copy unlucky 0 13 (vector_at 0 4 3)
                   (heap_of [[Some 1, Some 2, Some 3, None]]))
   \<and> fst (state_of (Insert_copy unlucky 0 13 (vector_at 0 4 3)
                      (heap_of [[Some 1, Some 2, Some 3, None]]))) = vector_at 0 4 3
   \<and> slots (snd (state_of (Insert_copy unlucky 0 13 (vector_at 0 4 3)
                             (heap_of [[Some 1, Some 2, Some 3, None]]))))
        (vdata (vector_at 0 4 3)) = [None, Some 1, Some 2, Some 3]
   \<and> \<not> vector_inv (snd (state_of (Insert_copy unlucky 0 13 (vector_at 0 4 3)
                                    (heap_of [[Some 1, Some 2, Some 3, None]]))))
          (fst (state_of (Insert_copy unlucky 0 13 (vector_at 0 4 3)
                            (heap_of [[Some 1, Some 2, Some 3, None]]))))"
  by code_simp

section \<open>Copy assignment\<close>


lemma uninitialized_copy_n_length:
  "uninitialized_copy_n T src i n dst j = (e, dst', evs) \<Longrightarrow> length dst' = length dst"
proof (induction n arbitrary: i j dst e dst' evs)
  case 0
  then show ?case by simp
next
  case (Suc n)
  show ?case
  proof (cases "slot_at src i")
    case None
    with Suc.prems show ?thesis by simp
  next
    case (Some x)
    show ?thesis
    proof (cases "length dst \<le> j \<or> copy_ctor_throws T x")
      case True
      with Suc.prems Some show ?thesis by (auto split: if_splits)
    next
      case False
      obtain e1 d1 ev1 where r: "uninitialized_copy_n T src (Suc i) n (dst[j := Some x]) (Suc j) = (e1, d1, ev1)"
        by (cases "uninitialized_copy_n T src (Suc i) n (dst[j := Some x]) (Suc j)") auto
      from Suc.IH [OF r] have "length d1 = length dst" by simp
      with Suc.prems Some False r show ?thesis
        by (cases e1) auto
    qed
  qed
qed











text \<open>
  Every block that \<^verbatim>\<open>Allocate\<close> creates fits \<^verbatim>\<open>size_t\<close> bytes, so the byte count of a copy of
  a vector whose block came from \<^verbatim>\<open>Allocate\<close> does not wrap.
\<close>

lemma Allocate_block_fits:
  assumes "0 < size_of T" and "Allocate T n h = Inr (Some a, h')"
  shows "\<exists>s. blocks h' a = Some s \<and> length s * size_of T < 2 ^ 64"
proof -
  let ?k = "size_t_mul n (size_of T)"
  have "?k div size_of T * size_of T \<le> ?k" by simp
  moreover have "?k < 2 ^ 64" by (simp add: size_t_mul_def)
  ultimately have "?k div size_of T * size_of T < 2 ^ 64" by (rule le_less_trans)
  with assms(2) show ?thesis
    by (auto simp: Allocate_def split: if_splits)
qed



end
